theory Spec2Isabelle
  imports Complex_Main "HOL-Library.Sublist"
begin

section \<open>Data model\<close>

text \<open>
  The vocabulary trainer of \<^verbatim>\<open>src/src/App.jsx\<close> keeps a list of cards in React state.
  A card is a plain object; the model gives it the fields the program reads and writes.

  \<^item> Strings are \<^typ>\<open>string\<close>, read as the UTF-8 bytes of the JavaScript string.
  \<^item> \<open>ease\<close> is a JavaScript number, an IEEE double. The model keeps it as the real it
    denotes, and rounds the result of every operation of the arithmetic to the nearest
    double (section Numbers).
  \<^item> \<open>interval\<close> (days) and \<open>due\<close> (milliseconds since the epoch) are numbers too, and
    whole: \<open>interval\<close> is 0 on a new card and a constant or a \<open>Math.ceil\<close> afterwards,
    \<open>due\<close> a clock reading or the rounded sum of whole numbers. The model keeps them as
    integers.
  \<^item> \<open>due\<close> may be missing on a card read back from storage (absent, \<open>null\<close> or
    \<open>undefined\<close>): that is \<open>None\<close>.
\<close>

record card =
  card_id :: string
  word :: string
  ipa :: string
  audio :: string
  meaning :: string
  example :: string
  ease :: real
  interval :: int
  due :: "int option"

text \<open>The component state: the four \<open>useState\<close> cells of \<open>App\<close>.\<close>

record app_state =
  cards :: "card list"
  currentCard :: "card option"
  showAnswer :: bool
  autoComplete :: bool

section \<open>Numbers\<close>

text \<open>
  A JavaScript number is an IEEE 754 binary64 value. The model keeps a number as the
  real it denotes and rounds the value of every decimal literal and the result of every
  \<open>+\<close>, \<open>-\<close> and \<open>*\<close> to the nearest double, ties to the even significand.

  \<open>expo x\<close> is the binary exponent of a positive \<open>x\<close>, the \<open>e\<close> with
  \<open>2 ^ e \<le> x < 2 ^ (e + 1)\<close>: \<open>expoUp\<close> counts the halvings that bring \<open>x \<ge> 1\<close> below 2,
  \<open>expoDown\<close> the doublings that bring \<open>x < 1\<close> up to 1.
\<close>

function expoUp :: "real \<Rightarrow> nat" where
  "expoUp x = (if 2 \<le> x then Suc (expoUp (x / 2)) else 0)"
  by pat_completeness auto
termination
proof (relation "measure (\<lambda>x. nat \<lceil>x\<rceil>)")
  show "wf (measure (\<lambda>x. nat \<lceil>x\<rceil>))" by simp
next
  fix x :: real
  assume "2 \<le> x"
  then have "\<lceil>x / 2\<rceil> < \<lceil>x\<rceil>" by linarith
  moreover have "0 < \<lceil>x\<rceil>" using \<open>2 \<le> x\<close> by linarith
  ultimately show "(x / 2, x) \<in> measure (\<lambda>x. nat \<lceil>x\<rceil>)" by simp
qed

function expoDown :: "real \<Rightarrow> nat" where
  "expoDown x = (if 0 < x \<and> x < 1 then Suc (expoDown (2 * x)) else 0)"
  by pat_completeness auto
termination
proof (relation "measure (\<lambda>x. nat \<lceil>1 / x\<rceil>)")
  show "wf (measure (\<lambda>x. nat \<lceil>1 / x\<rceil>))" by simp
next
  fix x :: real
  assume a: "0 < x \<and> x < 1"
  define y where "y = 1 / x"
  from a have y: "1 < y" by (simp add: y_def)
  have "\<lceil>y / 2\<rceil> < \<lceil>y\<rceil>"
  proof (cases "2 \<le> y")
    case True
    then show ?thesis by linarith
  next
    case False
    then have "\<lceil>y / 2\<rceil> \<le> 1" by (simp add: ceiling_le_iff)
    moreover from y have "1 < \<lceil>y\<rceil>" by (simp add: less_ceiling_iff)
    ultimately show ?thesis by (rule le_less_trans)
  qed
  moreover have "y / 2 = 1 / (2 * x)" by (simp add: y_def)
  ultimately have "\<lceil>1 / (2 * x)\<rceil> < \<lceil>1 / x\<rceil>" by (simp only: y_def)
  moreover have "0 < \<lceil>1 / x\<rceil>" using y unfolding y_def by linarith
  ultimately show "(2 * x, x) \<in> measure (\<lambda>x. nat \<lceil>1 / x\<rceil>)" by simp
qed

declare expoUp.simps [simp del] expoDown.simps [simp del]

definition expo :: "real \<Rightarrow> int" where
  "expo x = (if 1 \<le> x then int (expoUp x) else - int (expoDown x))"

text \<open>The integer nearest to \<open>y\<close>; of the two nearest when \<open>y\<close> lies half way, the even one.\<close>

definition roundEven :: "real \<Rightarrow> int" where
  "roundEven y =
     (let f = \<lfloor>y\<rfloor>; d = y - of_int f
      in if d < 1 / 2 then f else if 1 / 2 < d then f + 1 else if even f then f else f + 1)"

text \<open>
  \<open>rnd64 x\<close> is the double nearest to \<open>x\<close>. Doubles with exponent \<open>e\<close> are the multiples of
  \<open>2 ^ (e - 52)\<close>; below \<open>2 ^ (- 1022)\<close> (the subnormal range) the spacing stays at \<open>2 ^ (- 1074)\<close>.
  Not modelled: a result beyond the largest double, which JavaScript gives as
  \<open>Infinity\<close>; \<open>NaN\<close>; the sign of zero. A number that the program holds is a double
  already; the model takes any real or integer in its place and rounds what is computed
  from it.
\<close>

definition rnd64 :: "real \<Rightarrow> real" where
  "rnd64 x =
     (if x = 0 then 0
      else (let u = 2 powi (max (expo \<bar>x\<bar>) (- 1022) - 52)
            in of_int (roundEven (x / u)) * u))"

text \<open>
  A decimal literal of the source, and the operators \<open>+\<close>, \<open>-\<close> and \<open>*\<close> on numbers.
\<close>

definition lit :: "real \<Rightarrow> real" where
  "lit x = rnd64 x"

definition fadd :: "real \<Rightarrow> real \<Rightarrow> real" where
  "fadd a b = rnd64 (a + b)"

definition fsub :: "real \<Rightarrow> real \<Rightarrow> real" where
  "fsub a b = rnd64 (a - b)"

definition fmul :: "real \<Rightarrow> real \<Rightarrow> real" where
  "fmul a b = rnd64 (a * b)"

section \<open>Strings\<close>

text \<open>
  \<open>String.prototype.trim\<close> removes the JavaScript white space and line terminator code
  points from both ends. On UTF-8 bytes these are the following sequences: TAB, LF, VT,
  FF, CR, SPACE, U+00A0, U+1680, U+2000 to U+200A, U+2028, U+2029, U+202F, U+205F,
  U+3000 and U+FEFF.
\<close>

definition whitespace :: "string list" where
  "whitespace =
     [[CHR 0x09], [CHR 0x0A], [CHR 0x0B], [CHR 0x0C], [CHR 0x0D], [CHR 0x20],
      [CHR 0xC2, CHR 0xA0], [CHR 0xE1, CHR 0x9A, CHR 0x80],
      [CHR 0xE2, CHR 0x80, CHR 0x80], [CHR 0xE2, CHR 0x80, CHR 0x81],
      [CHR 0xE2, CHR 0x80, CHR 0x82], [CHR 0xE2, CHR 0x80, CHR 0x83],
      [CHR 0xE2, CHR 0x80, CHR 0x84], [CHR 0xE2, CHR 0x80, CHR 0x85],
      [CHR 0xE2, CHR 0x80, CHR 0x86], [CHR 0xE2, CHR 0x80, CHR 0x87],
      [CHR 0xE2, CHR 0x80, CHR 0x88], [CHR 0xE2, CHR 0x80, CHR 0x89],
      [CHR 0xE2, CHR 0x80, CHR 0x8A], [CHR 0xE2, CHR 0x80, CHR 0xA8],
      [CHR 0xE2, CHR 0x80, CHR 0xA9], [CHR 0xE2, CHR 0x80, CHR 0xAF],
      [CHR 0xE2, CHR 0x81, CHR 0x9F], [CHR 0xE3, CHR 0x80, CHR 0x80],
      [CHR 0xEF, CHR 0xBB, CHR 0xBF]]"

text \<open>\<open>strip ws s\<close> removes from the front of \<open>s\<close> every leading occurrence of a sequence of \<open>ws\<close>.\<close>

function strip :: "string list \<Rightarrow> string \<Rightarrow> string" where
  "strip ws s =
     (case find (\<lambda>w. w \<noteq> [] \<and> prefix w s) ws of
        None \<Rightarrow> s
      | Some w \<Rightarrow> strip ws (drop (length w) s))"
  by pat_completeness auto
termination
proof (relation "measure (\<lambda>(ws, s). length s)")
  show "wf (measure (\<lambda>(ws, s). length s))" by simp
next
  fix ws :: "string list" and s w :: string
  assume "find (\<lambda>w. w \<noteq> [] \<and> prefix w s) ws = Some w"
  then have "w \<noteq> []" and "prefix w s"
    by (auto simp: find_Some_iff)
  then have "s \<noteq> []" by auto
  with \<open>w \<noteq> []\<close> show "((ws, drop (length w) s), (ws, s)) \<in> measure (\<lambda>(ws, s). length s)"
    by simp
qed

declare strip.simps [simp del]

definition trimStart :: "string \<Rightarrow> string" where
  "trimStart s = strip whitespace s"

definition trimEnd :: "string \<Rightarrow> string" where
  "trimEnd s = rev (strip (map rev whitespace) (rev s))"

definition trim :: "string \<Rightarrow> string" where
  "trim s = trimEnd (trimStart s)"

text \<open>
  \<^verbatim>\<open>s.split(',')\<close>: the pieces between the separators; the empty string gives one
  empty piece.
\<close>

fun splitOn :: "char \<Rightarrow> string \<Rightarrow> string list" where
  "splitOn d [] = [[]]"
| "splitOn d (c # s) =
     (if c = d then [] # splitOn d s
      else (case splitOn d s of
              piece # pieces \<Rightarrow> (c # piece) # pieces
            | [] \<Rightarrow> [[c]]))"

text \<open>
  \<^verbatim>\<open>s.split(/\r?\n/)\<close>: a line ends at LF, and a CR right before that LF belongs to
  the separator.
\<close>

fun splitLines :: "string \<Rightarrow> string list" where
  "splitLines [] = [[]]"
| "splitLines (c # s) =
     (if c = CHR 0x0A then [] # splitLines s
      else if c = CHR 0x0D \<and> s \<noteq> [] \<and> hd s = CHR 0x0A then [] # splitLines (tl s)
      else (case splitLines s of
              line # lines \<Rightarrow> (c # line) # lines
            | [] \<Rightarrow> [[c]]))"

text \<open>\<^verbatim>\<open>xs.join(sep)\<close>\<close>

fun join :: "string \<Rightarrow> string list \<Rightarrow> string" where
  "join sep [] = []"
| "join sep [x] = x"
| "join sep (x # y # ys) = x @ sep @ join sep (y # ys)"

section \<open>Reading CSV\<close>

text \<open>
  A raw row is an object whose properties hold strings: \<open>parseCSV\<close> builds such objects,
  and a JSON word list is an array of them. A property that is not there reads as
  \<open>undefined\<close>, here \<open>None\<close>.
\<close>

type_synonym row = "string \<rightharpoonup> string"

text \<open>\<^verbatim>\<open>values[idx] || ''\<close>\<close>

definition nthOrEmpty :: "string list \<Rightarrow> nat \<Rightarrow> string" where
  "nthOrEmpty values idx = (if idx < length values then values ! idx else [])"

text \<open>
  \<^verbatim>\<open>obj[h] = v\<close> on a plain object. Assigning a string to \<open>__proto__\<close> goes to the
  accessor of \<open>Object.prototype\<close>, which ignores it.
\<close>

definition setProp :: "row \<Rightarrow> string \<Rightarrow> string \<Rightarrow> row" where
  "setProp obj h v = (if h = ''__proto__'' then obj else obj(h \<mapsto> v))"

text \<open>The body of \<^verbatim>\<open>lines.slice(1).map\<close>: one object per line, filled header by header.\<close>

definition parseLine :: "string list \<Rightarrow> string \<Rightarrow> row" where
  "parseLine headers line =
     (let values = splitOn CHR '','' line
      in fold (\<lambda>(h, idx) obj. setProp obj h (trim (nthOrEmpty values idx)))
              (zip headers [0..<length headers]) Map.empty)"

definition parseCSV :: "string \<Rightarrow> row list" where
  "parseCSV text =
     (case splitLines (trim text) of
        [] \<Rightarrow> []
      | first # rest \<Rightarrow>
          (let headers = map trim (splitOn CHR '','' first)
           in map (parseLine headers) rest))"

section \<open>The operator \<open>||\<close> on strings\<close>

text \<open>
  \<open>undefined\<close> and the empty string are falsy, every other string is truthy;
  \<^verbatim>\<open>a || b\<close> is \<open>a\<close> when \<open>a\<close> is truthy and \<open>b\<close> otherwise. \<open>js_or\<close> is the operator
  between two property reads, \<open>orString\<close> the operator with a string on the right, and
  \<open>strOr\<close> the operator between two strings.
\<close>

definition truthy :: "string option \<Rightarrow> bool" where
  "truthy v = (case v of None \<Rightarrow> False | Some s \<Rightarrow> s \<noteq> [])"

definition js_or :: "string option \<Rightarrow> string option \<Rightarrow> string option" where
  "js_or a b = (if truthy a then a else b)"

definition orString :: "string option \<Rightarrow> string \<Rightarrow> string" where
  "orString a b = (case a of None \<Rightarrow> b | Some s \<Rightarrow> if s \<noteq> [] then s else b)"

definition strOr :: "string \<Rightarrow> string \<Rightarrow> string" where
  "strOr a b = (if a \<noteq> [] then a else b)"

section \<open>The dictionary lookup\<close>

text \<open>
  A thrown exception or a rejected promise is \<open>Inl\<close> of the error, a normal result \<open>Inr\<close>.
\<close>

datatype js_error = Error string | TypeError | SyntaxError | NotReadableError

text \<open>
  The body that dictionaryapi.dev answers with: an array of entries, each with optional
  \<open>phonetics\<close> (objects with optional strings \<open>text\<close> and \<open>audio\<close>) and optional
  \<open>meanings\<close> (objects with optional \<open>definitions\<close>, each with an optional string
  \<open>definition\<close>). The network is a function from the requested URL to what \<open>fetch\<close>
  resolves to, or the error it rejects with; \<open>res_json\<close> is the outcome of \<open>res.json()\<close>.
\<close>

record phonetic =
  phon_text :: "string option"
  phon_audio :: "string option"

record definition_entry =
  def_definition :: "string option"

record meaning_entry =
  mean_definitions :: "definition_entry list option"

record dict_entry =
  phonetics :: "phonetic list option"
  meanings :: "meaning_entry list option"

record response =
  res_ok :: bool
  res_json :: "js_error + dict_entry list"

type_synonym network = "string \<Rightarrow> js_error + response"

record lookup =
  fetched_ipa :: string
  fetched_audio :: string
  fetched_meaning :: string

text \<open>
  \<open>encodeURIComponent\<close> keeps the letters, the digits and \<^verbatim>\<open>- _ . ! ~ * ' ( )\<close> and
  writes every other byte of the UTF-8 encoding as \<open>%XX\<close>.
\<close>

definition uriUnreserved :: "char \<Rightarrow> bool" where
  "uriUnreserved c =
     (c \<in> set (''ABCDEFGHIJKLMNOPQRSTUVWXYZabcdefghijklmnopqrstuvwxyz0123456789-_.!~*()''
               @ [CHR 0x27]))"

definition hexDigit :: "nat \<Rightarrow> char" where
  "hexDigit n = ''0123456789ABCDEF'' ! n"

definition encodeURIComponent :: "string \<Rightarrow> string" where
  "encodeURIComponent s =
     concat (map (\<lambda>c. if uriUnreserved c then [c]
                       else [CHR ''%'', hexDigit (of_char c div 16), hexDigit (of_char c mod 16)]) s)"

definition dictionaryUrl :: "string \<Rightarrow> string" where
  "dictionaryUrl w = ''https://api.dictionaryapi.dev/api/v2/entries/en/'' @ encodeURIComponent w"

text \<open>
  The phonetics block: \<open>ipa\<close> is the \<open>text\<close> of the first phonetics entry with a truthy
  \<open>text\<close>, \<open>audio\<close> the \<open>audio\<close> of the first with a truthy \<open>audio\<close>; both stay empty when
  \<open>phonetics\<close> is missing or empty. The two \<open>typeof\<close> tests ask for a string, which a
  \<open>text\<close> or \<open>audio\<close> that is there always is in this model.
\<close>

definition entryPhonetics :: "dict_entry \<Rightarrow> string \<times> string" where
  "entryPhonetics entry =
     (case phonetics entry of
        None \<Rightarrow> ([], [])
      | Some ps \<Rightarrow>
          if length ps > 0 then
            (let withText = find (\<lambda>p. truthy (phon_text p)) ps;
                 withAudio = find (\<lambda>p. truthy (phon_audio p)) ps
             in ((case withText of
                    Some p \<Rightarrow> (case phon_text p of Some t \<Rightarrow> t | None \<Rightarrow> [])
                  | None \<Rightarrow> []),
                 (case withAudio of
                    Some p \<Rightarrow> (case phon_audio p of Some a \<Rightarrow> a | None \<Rightarrow> [])
                  | None \<Rightarrow> [])))
          else ([], []))"

text \<open>The meanings block: the first definition of the first meaning, when it is truthy.\<close>

definition entryMeaning :: "dict_entry \<Rightarrow> string" where
  "entryMeaning entry =
     (case meanings entry of
        None \<Rightarrow> []
      | Some [] \<Rightarrow> []
      | Some (m # _) \<Rightarrow>
          (case mean_definitions m of
             None \<Rightarrow> []
           | Some [] \<Rightarrow> []
           | Some (d # _) \<Rightarrow>
               (case def_definition d of
                  None \<Rightarrow> []
                | Some s \<Rightarrow> if s \<noteq> [] then s else [])))"

text \<open>The \<open>try\<close> block of \<open>fetchDictionary\<close>; \<^verbatim>\<open>data[0] || {}\<close> is the empty entry when the array is empty.\<close>

definition fetchDictionary_try :: "network \<Rightarrow> string \<Rightarrow> js_error + lookup" where
  "fetchDictionary_try fetch w =
     (case fetch (dictionaryUrl w) of
        Inl e \<Rightarrow> Inl e
      | Inr res \<Rightarrow>
          if \<not> res_ok res then Inl (Error ''Dictionary fetch failed'')
          else
            (case res_json res of
               Inl e \<Rightarrow> Inl e
             | Inr data \<Rightarrow>
                 (let entry = (case data of
                                 [] \<Rightarrow> \<lparr>phonetics = None, meanings = None\<rparr>
                               | e # _ \<Rightarrow> e);
                      (ipa, audio) = entryPhonetics entry;
                      meaning = entryMeaning entry
                  in Inr \<lparr>fetched_ipa = ipa, fetched_audio = audio, fetched_meaning = meaning\<rparr>)))"

text \<open>The whole function: the \<open>catch\<close> turns every error into the empty result.\<close>

definition fetchDictionary :: "network \<Rightarrow> string \<Rightarrow> js_error + lookup" where
  "fetchDictionary fetch w =
     (case fetchDictionary_try fetch w of
        Inl err \<Rightarrow> Inr \<lparr>fetched_ipa = [], fetched_audio = [], fetched_meaning = []\<rparr>
      | Inr r \<Rightarrow> Inr r)"

section \<open>Importing a file\<close>

text \<open>
  What the program takes from the platform:
  \<^item> \<open>numToString\<close>, the conversion of a number to a string (template literals and
    \<open>Array.prototype.join\<close> use it), and \<open>JSON_parse\<close>, which returns the parsed value
    or throws. Of a parsed value the import only asks whether it is an array; its
    elements are the rows.
  \<^item> a \<open>draw\<close> for each row of the import, by the row's position: the two readings of
    \<open>Date.now()\<close> (for the id and for \<open>due\<close>), the value of \<open>Math.random()\<close>, and the
    network as it answers while that row is processed.
  \<^item> the chosen file, if any: its name and the outcome of \<open>file.text()\<close>.
\<close>

datatype json = JArray "row list" | JOther

record platform =
  numToString :: "real \<Rightarrow> string"
  JSON_parse :: "string \<Rightarrow> js_error + json"

record draw =
  now_id :: int
  random :: real
  now_due :: int
  fetch :: network

record import_file =
  file_name :: string
  file_text :: "js_error + string"

text \<open>
  \<^verbatim>\<open>file.name.toLowerCase().endsWith('.json')\<close>. Only the letters A to Z matter: no
  other character has one of \<open>j\<close>, \<open>s\<close>, \<open>o\<close>, \<open>n\<close> as its lower case.
\<close>

definition toLowerAscii :: "char \<Rightarrow> char" where
  "toLowerAscii c =
     (case map_of (zip ''ABCDEFGHIJKLMNOPQRSTUVWXYZ'' ''abcdefghijklmnopqrstuvwxyz'') c of
        Some l \<Rightarrow> l
      | None \<Rightarrow> c)"

definition isJsonName :: "string \<Rightarrow> bool" where
  "isJsonName name = suffix ''.json'' (map toLowerAscii name)"

text \<open>The \<open>try\<close> block of \<open>handleFileImport\<close>: the rows of the file, or the error thrown.\<close>

definition readRows :: "platform \<Rightarrow> import_file \<Rightarrow> js_error + row list" where
  "readRows P f =
     (case file_text f of
        Inl e \<Rightarrow> Inl e
      | Inr text \<Rightarrow>
          if isJsonName (file_name f) then
            (case JSON_parse P text of
               Inl e \<Rightarrow> Inl e
             | Inr (JArray rows) \<Rightarrow> Inr rows
             | Inr JOther \<Rightarrow> Inr [])
          else Inr (parseCSV text))"

text \<open>
  \<^verbatim>\<open>(entry.word || entry.Word || entry.term || entry.Term || '').toString().trim()\<close>;
  on a string \<open>toString\<close> returns the string itself.
\<close>

definition resolveWord :: "row \<Rightarrow> string" where
  "resolveWord entry =
     trim (orString (js_or (js_or (js_or (entry ''word'') (entry ''Word'')) (entry ''term''))
                           (entry ''Term'')) [])"

text \<open>The object literal \<open>card\<close> built for a row whose word \<open>w\<close> is not empty.\<close>

definition newCard :: "platform \<Rightarrow> draw \<Rightarrow> row \<Rightarrow> string \<Rightarrow> card" where
  "newCard P d entry w =
     \<lparr>card_id = numToString P (of_int (now_id d)) @ ''-'' @ numToString P (random d),
      word = w,
      ipa = orString (js_or (entry ''ipa'') (entry ''IPA'')) [],
      audio = orString (js_or (entry ''audio'') (entry ''Audio'')) [],
      meaning = orString (js_or (entry ''meaning'') (entry ''Meaning'')) [],
      example = orString (js_or (entry ''example'') (entry ''Example'')) [],
      ease = 2.5,
      interval = 0,
      due = Some (now_due d)\<rparr>"

text \<open>
  The auto-complete block: when the switch is on and one of \<open>ipa\<close>, \<open>meaning\<close>, \<open>audio\<close>
  is empty, the word is looked up and each of the three fields becomes
  \<^verbatim>\<open>card.x || fetched.x\<close>.
\<close>

definition completeCard :: "draw \<Rightarrow> bool \<Rightarrow> card \<Rightarrow> js_error + card" where
  "completeCard d ac c =
     (if ac \<and> (ipa c = [] \<or> meaning c = [] \<or> audio c = []) then
        (case fetchDictionary (fetch d) (word c) of
           Inl e \<Rightarrow> Inl e
         | Inr fetched \<Rightarrow>
             Inr (c\<lparr>ipa := strOr (ipa c) (fetched_ipa fetched),
                    audio := strOr (audio c) (fetched_audio fetched),
                    meaning := strOr (meaning c) (fetched_meaning fetched)\<rparr>))
      else Inr c)"

text \<open>
  The \<open>for\<close> loop over the imported rows: \<open>i\<close> is the position of the next row,
  \<open>newCards\<close> the array filled so far. A row with an empty word is skipped
  (\<open>continue\<close>); every other row pushes one card.
\<close>

fun importRows ::
  "platform \<Rightarrow> (nat \<Rightarrow> draw) \<Rightarrow> bool \<Rightarrow> nat \<Rightarrow> row list \<Rightarrow> card list \<Rightarrow> js_error + card list"
where
  "importRows P env ac i [] newCards = Inr newCards"
| "importRows P env ac i (entry # rest) newCards =
     (let w = resolveWord entry
      in if w = [] then importRows P env ac (Suc i) rest newCards
         else (case completeCard (env i) ac (newCard P (env i) entry w) of
                 Inl e \<Rightarrow> Inl e
               | Inr c \<Rightarrow> importRows P env ac (Suc i) rest (newCards @ [c])))"

text \<open>
  \<open>handleFileImport\<close>. Without a file it returns at once. An error of the \<open>try\<close> block
  is caught and logged, and the handler returns without touching the state. Otherwise
  the new cards are appended to the list (\<^verbatim>\<open>setCards((prev) => [...prev, ...newCards])\<close>).
  The result is \<open>Inl\<close> when an exception leaves the handler.
\<close>

definition handleFileImport ::
  "platform \<Rightarrow> (nat \<Rightarrow> draw) \<Rightarrow> app_state \<Rightarrow> import_file option \<Rightarrow> js_error + app_state"
where
  "handleFileImport P env st chosen =
     (case chosen of
        None \<Rightarrow> Inr st
      | Some f \<Rightarrow>
          (case readRows P f of
             Inl err \<Rightarrow> Inr st
           | Inr importedRows \<Rightarrow>
               (case importRows P env (autoComplete st) 0 importedRows [] of
                  Inl e \<Rightarrow> Inl e
                | Inr newCards \<Rightarrow> Inr (st\<lparr>cards := cards st @ newCards\<rparr>))))"

section \<open>Scheduler\<close>

subsection \<open>Selecting the next due card\<close>

text \<open>\<^verbatim>\<open>c.due ?? 0\<close>: a missing \<open>due\<close> counts as 0.\<close>

definition dueOrZero :: "card \<Rightarrow> int" where
  "dueOrZero c = (case due c of None \<Rightarrow> 0 | Some d \<Rightarrow> d)"

text \<open>\<^verbatim>\<open>allCards.filter((c) => (c.due ?? 0) <= now)\<close>\<close>

definition dueCards :: "card list \<Rightarrow> int \<Rightarrow> card list" where
  "dueCards allCards now = filter (\<lambda>c. dueOrZero c \<le> now) allCards"

text \<open>
  \<open>pickNextCard\<close> reads the clock (\<open>now\<close>) and sets \<open>currentCard\<close>; when a card is due
  it also hides the answer.
\<close>

definition pickNextCard :: "app_state \<Rightarrow> card list \<Rightarrow> int \<Rightarrow> app_state" where
  "pickNextCard st allCards now =
     (case dueCards allCards now of
        c # _ \<Rightarrow> st\<lparr>currentCard := Some c, showAnswer := False\<rparr>
      | [] \<Rightarrow> st\<lparr>currentCard := None\<rparr>)"

subsection \<open>Rating a card\<close>

text \<open>
  \<^verbatim>\<open>Date.now() + interval * 24 * 60 * 60 * 1000\<close>, the products taken from the left, each
  result rounded. The operands are whole numbers, so the sum is one (see
  \<open>dueAfter_whole\<close>) and the field \<open>due\<close> receives it as it is.
\<close>

definition dueAfter :: "int \<Rightarrow> int \<Rightarrow> int" where
  "dueAfter now days =
     \<lfloor>fadd (of_int now) (fmul (fmul (fmul (fmul (of_int days) 24) 60) 60) 1000)\<rfloor>"

text \<open>
  \<open>updateCard\<close> first computes the object \<open>updated\<close> from the card, the rating string and
  the clock, then replaces every card of the list that has the same id.
  The three \<open>if\<close> branches are tried in the source's order; a rating that matches none
  leaves \<open>ease\<close> and \<open>interval\<close> as destructured from the card. \<open>due\<close> is computed after
  the branches, for every rating. \<open>Math.max\<close> and \<open>Math.ceil\<close> are exact; the literals
  \<open>0.2\<close>, \<open>1.3\<close>, \<open>0.05\<close>, \<open>1.2\<close> and \<open>0.1\<close> and the sums and products are rounded.
\<close>

definition updated :: "card \<Rightarrow> string \<Rightarrow> int \<Rightarrow> card" where
  "updated c rating now =
     (let (ease', interval') =
        (if rating = ''again'' then (max (fsub (ease c) (lit 0.2)) (lit 1.3), 1)
         else if rating = ''hard'' then
           (fadd (ease c) (lit 0.05), max 1 \<lceil>fmul (of_int (interval c)) (lit 1.2)\<rceil>)
         else if rating = ''good'' then
           (let e = fadd (ease c) (lit 0.1)
            in (e, if interval c > 0 then \<lceil>fmul (of_int (interval c)) e\<rceil> else 2))
         else (ease c, interval c));
        due' = dueAfter now interval'
      in c\<lparr>ease := ease', interval := interval', due := Some due'\<rparr>)"


section \<open>Exporting CSV\<close>

text \<open>
  \<^verbatim>\<open>c[h] ?? ''\<close> as \<open>join\<close> writes it: a string as it is, a number through
  \<open>numToString\<close>, a missing \<open>due\<close> as the empty string.
\<close>

definition csvHeaders :: "string list" where
  "csvHeaders = [''word'', ''ipa'', ''audio'', ''meaning'', ''example'', ''ease'', ''interval'', ''due'']"

definition cardField :: "platform \<Rightarrow> card \<Rightarrow> string \<Rightarrow> string" where
  "cardField P c h =
     (if h = ''word'' then word c
      else if h = ''ipa'' then ipa c
      else if h = ''audio'' then audio c
      else if h = ''meaning'' then meaning c
      else if h = ''example'' then example c
      else if h = ''ease'' then numToString P (ease c)
      else if h = ''interval'' then numToString P (of_int (interval c))
      else if h = ''due'' then (case due c of None \<Rightarrow> [] | Some d \<Rightarrow> numToString P (of_int d))
      else [])"

text \<open>The row of one card: \<^verbatim>\<open>headers.map((h) => (c[h] ?? '')).join(',')\<close>.\<close>

definition csvRow :: "platform \<Rightarrow> card \<Rightarrow> string" where
  "csvRow P c = join '','' (map (cardField P c) csvHeaders)"

text \<open>The text of the file that \<open>exportCSV\<close> offers for download.\<close>

definition exportCSV :: "platform \<Rightarrow> app_state \<Rightarrow> string" where
  "exportCSV P st =
     (let rows = map (csvRow P) (cards st)
      in join [CHR 0x0A] (join '','' csvHeaders # rows))"

section \<open>Conditions used in the statements\<close>

text \<open>
  What \<open>Number.prototype.toString\<close> can return: a non-empty string of digits, sign,
  point and exponent mark, or \<open>Infinity\<close> or \<open>NaN\<close>. The statements about the CSV
  export assume this much of \<open>numToString\<close>.
\<close>

definition numberText :: "string \<Rightarrow> bool" where
  "numberText s = (s \<noteq> [] \<and> set s \<subseteq> set ''0123456789.+-eInfityNa'')"

text \<open>
  A field that the comma-separated format carries unharmed: no comma, no line feed, and
  nothing for \<open>trim\<close> to remove.
\<close>

definition plainField :: "string \<Rightarrow> bool" where
  "plainField s = (CHR '','' \<notin> set s \<and> CHR 0x0A \<notin> set s \<and> trim s = s)"

text \<open>
  The range in which the clock reading, the milliseconds of \<open>days\<close> days and their sum are
  whole numbers that a double holds exactly (up to \<open>2 ^ 53\<close> either side of zero). The
  clock is far inside it: \<open>2 ^ 53\<close> milliseconds are more than 285,000 years, about 104
  million days.
\<close>

definition exactRange :: "int \<Rightarrow> int \<Rightarrow> bool" where
  "exactRange now days =
     (\<bar>now\<bar> \<le> 2 ^ 53 \<and> \<bar>days\<bar> * 86400000 \<le> 2 ^ 53 \<and> \<bar>now + days * 86400000\<bar> \<le> 2 ^ 53)"

section \<open>Properties of the arithmetic\<close>

lemma expoUp_bounds: "1 \<le> x \<Longrightarrow> 2 ^ expoUp x \<le> x \<and> x < 2 * 2 ^ expoUp x"
proof (induction x rule: expoUp.induct)
  case (1 x)
  show ?case
  proof (cases "2 \<le> x")
    case True
    then have "1 \<le> x / 2" by simp
    with 1 True have "2 ^ expoUp (x / 2) \<le> x / 2 \<and> x / 2 < 2 * 2 ^ expoUp (x / 2)" by blast
    moreover have "expoUp x = Suc (expoUp (x / 2))" using True by (subst expoUp.simps) simp
    ultimately show ?thesis by simp
  next
    case False
    then have "expoUp x = 0" by (subst expoUp.simps) simp
    with False 1 show ?thesis by simp
  qed
qed

lemma expoDown_bounds:
  "0 < x \<Longrightarrow> x < 1 \<Longrightarrow> 1 \<le> x * 2 ^ expoDown x \<and> x * 2 ^ expoDown x < 2 \<and> 0 < expoDown x"
proof (induction x rule: expoDown.induct)
  case (1 x)
  have s: "expoDown x = Suc (expoDown (2 * x))" using 1(2,3) by (subst expoDown.simps) simp
  show ?case
  proof (cases "2 * x < 1")
    case True
    with 1 have "1 \<le> (2 * x) * 2 ^ expoDown (2 * x) \<and> (2 * x) * 2 ^ expoDown (2 * x) < 2" by simp
    with s show ?thesis by (simp add: mult.assoc mult.left_commute)
  next
    case False
    then have "expoDown (2 * x) = 0" by (subst expoDown.simps) simp
    with s False 1(3) show ?thesis by simp
  qed
qed

text \<open>\<open>expo\<close> is the binary exponent, and the only one.\<close>

lemma expo_bounds:
  assumes "0 < x"
  shows "2 powi expo x \<le> x \<and> x < 2 powi (expo x + 1)"
proof (cases "1 \<le> x")
  case True
  then have "expo x = int (expoUp x)" by (simp add: expo_def)
  with expoUp_bounds [OF True] show ?thesis
    by (simp add: power_int_add)
next
  case False
  with assms have x: "0 < x" "x < 1" by simp_all
  let ?k = "expoDown x"
  from expoDown_bounds [OF x] have b: "1 \<le> x * 2 ^ ?k" "x * 2 ^ ?k < 2" "0 < ?k" by simp_all
  have e: "expo x = - int ?k" using False by (simp add: expo_def)
  have p: "(2::real) powi (- int ?k) = 1 / 2 ^ ?k"
    by (simp add: power_int_minus field_simps)
  have q: "(2::real) powi (- int ?k + 1) = 2 / 2 ^ ?k"
    using power_int_add [of "2::real" "- int ?k" 1] by (simp add: power_int_minus field_simps)
  from b show ?thesis unfolding e p q by (simp add: field_simps)
qed

lemma powi_less_cancel: "(2::real) powi a < 2 powi b \<Longrightarrow> a < b"
proof (rule ccontr)
  assume "2 powi a < (2::real) powi b" and "\<not> a < b"
  then have "b \<le> a" by simp
  then have "(2::real) powi b \<le> 2 powi a" by (intro power_int_increasing) simp_all
  with \<open>2 powi a < (2::real) powi b\<close> show False by simp
qed

lemma expo_unique:
  assumes "0 < x" and "2 powi e \<le> x" and "x < 2 powi (e + 1)"
  shows "expo x = e"
proof -
  from expo_bounds [OF assms(1)] have b: "2 powi expo x \<le> x" "x < 2 powi (expo x + 1)"
    by simp_all
  have "(2::real) powi e < 2 powi (expo x + 1)" using assms(2) b(2) by (rule le_less_trans)
  then have "e < expo x + 1" by (rule powi_less_cancel)
  moreover have "(2::real) powi expo x < 2 powi (e + 1)" using b(1) assms(3) by (rule le_less_trans)
  then have "expo x < e + 1" by (rule powi_less_cancel)
  ultimately show ?thesis by simp
qed

lemma roundEven_of_int: "roundEven (of_int m) = m"
  by (simp add: roundEven_def)

lemma roundEven_ge: "of_int m \<le> y \<Longrightarrow> m \<le> roundEven y"
proof -
  assume "of_int m \<le> y"
  then have "m \<le> \<lfloor>y\<rfloor>" by (simp add: le_floor_iff)
  then show ?thesis by (auto simp: roundEven_def Let_def)
qed

lemma roundEven_near:
  assumes "of_int m - 1 / 2 < y" and "y < of_int m + 1 / 2"
  shows "roundEven y = m"
proof (cases "of_int m \<le> y")
  case True
  with assms(2) have "\<lfloor>y\<rfloor> = m" by (intro floor_unique) simp_all
  with assms(2) show ?thesis by (simp add: roundEven_def)
next
  case False
  with assms(1) have f: "\<lfloor>y\<rfloor> = m - 1" by (intro floor_unique) simp_all
  with assms(1) show ?thesis by (simp add: roundEven_def)
qed

lemma roundEven_tie:
  assumes "y = of_int m + 1 / 2"
  shows "roundEven y = (if even m then m else m + 1)"
proof -
  from assms have "\<lfloor>y\<rfloor> = m" by (intro floor_unique) simp_all
  with assms show ?thesis by (simp add: roundEven_def)
qed

text \<open>\<open>roundEven\<close> is within one half of its argument.\<close>

lemma roundEven_nearest: "\<bar>of_int (roundEven y) - y\<bar> \<le> 1 / 2"
proof -
  have "of_int \<lfloor>y\<rfloor> \<le> y" "y < of_int \<lfloor>y\<rfloor> + 1" by linarith+
  then show ?thesis by (auto simp: roundEven_def Let_def)
qed

text \<open>The value of \<open>rnd64\<close> at a number whose exponent is known.\<close>

lemma rnd64_eq:
  assumes "0 < x" and "2 powi e \<le> x" and "x < 2 powi (e + 1)" and "- 1022 \<le> e"
    and "roundEven (x / 2 powi (e - 52)) = m"
  shows "rnd64 x = of_int m * 2 powi (e - 52)"
proof -
  have "expo \<bar>x\<bar> = e" using assms(1-3) by (intro expo_unique) simp_all
  with assms(1,4,5) show ?thesis by (simp add: rnd64_def max_def)
qed

lemma rnd64_exact:
  assumes "0 < x" and "- 1022 \<le> expo x" and "x / 2 powi (expo x - 52) = of_int m"
  shows "rnd64 x = x"
proof -
  from assms have "rnd64 x = of_int (roundEven (of_int m)) * 2 powi (expo x - 52)"
    by (simp add: rnd64_def max_def)
  also have "\<dots> = x / 2 powi (expo x - 52) * 2 powi (expo x - 52)"
    by (simp add: roundEven_of_int assms(3))
  also have "\<dots> = x" by simp
  finally show ?thesis .
qed

text \<open>Whole numbers up to \<open>2 ^ 53\<close> are doubles.\<close>

lemma rnd64_of_int:
  assumes "0 \<le> n" and "n \<le> 2 ^ 53"
  shows "rnd64 (of_int n) = of_int n"
proof (cases "n = 0")
  case True
  then show ?thesis by (simp add: rnd64_def)
next
  case False
  with assms(1) have pos: "0 < (of_int n :: real)" by simp
  let ?e = "expo (of_int n)"
  from expo_bounds [OF pos] have b: "2 powi ?e \<le> (of_int n :: real)" "(of_int n :: real) < 2 powi (?e + 1)"
    by simp_all
  have "(1::real) \<le> of_int n" using False assms(1) by simp
  then have e0: "0 \<le> ?e" by (simp add: expo_def)
  have "(of_int n :: real) \<le> 2 powi 53" using assms(2)
    by (metis of_int_le_iff of_int_numeral of_int_power power_int_numeral)
  with b(1) have "(2::real) powi ?e < 2 powi (53 + 1)"
    by (smt (verit) power_int_strict_increasing)
  then have e53: "?e \<le> 53" using powi_less_cancel [of ?e "53 + 1"] by simp
  show ?thesis
  proof (cases "?e = 53")
    case True
    with b(1) have "(2::real) ^ 53 \<le> of_int n" by simp
    with assms(2) have n: "n = 2 ^ 53"
      by (metis antisym of_int_le_iff of_int_numeral of_int_power)
    have "(of_int n :: real) / 2 powi (?e - 52) = of_int (2 ^ 52)"
      unfolding True by (simp add: n)
    from rnd64_exact [OF pos _ this] e0 show ?thesis by simp
  next
    case False
    with e53 have le: "?e \<le> 52" by simp
    then have "(2::real) powi (?e - 52) = 1 / 2 ^ nat (52 - ?e)"
      by (cases "?e = 52") (simp_all add: power_int_def inverse_eq_divide power_one_over)
    then have "(of_int n :: real) / 2 powi (?e - 52) = of_int (n * 2 ^ nat (52 - ?e))"
      by simp
    from rnd64_exact [OF pos _ this] e0 show ?thesis by simp
  qed
qed

text \<open>A whole number rounds to a whole number.\<close>

lemma rnd64_whole:
  assumes "0 \<le> n"
  shows "\<exists>m\<ge>0. rnd64 (of_int n) = of_int m"
proof (cases "n \<le> 2 ^ 53")
  case True
  with assms rnd64_of_int [of n] show ?thesis by blast
next
  case False
  then have big: "(2::int) ^ 53 < n" by simp
  then have pos: "0 < (of_int n :: real)" by simp
  let ?x = "of_int n :: real"
  let ?e = "expo ?x"
  from expo_bounds [OF pos] have b: "2 powi ?e \<le> ?x" "?x < 2 powi (?e + 1)" by simp_all
  have "(2::real) powi 53 < ?x" using big
    by (metis of_int_less_iff of_int_numeral of_int_power power_int_numeral)
  from this b(2) have "(2::real) powi 53 < 2 powi (?e + 1)" by (rule less_trans)
  then have e: "53 \<le> ?e" using powi_less_cancel [of 53 "?e + 1"] by simp
  then have u: "(2::real) powi (?e - 52) = of_int (2 ^ nat (?e - 52))"
    by (simp add: power_int_def)
  have r: "rnd64 ?x = of_int (roundEven (?x / 2 powi (?e - 52))) * 2 powi (?e - 52)"
    using pos e by (simp add: rnd64_def max_def Let_def)
  have "0 \<le> ?x / 2 powi (?e - 52)" using pos by simp
  then have "of_int 0 \<le> ?x / 2 powi (?e - 52)" by simp
  then have nn: "0 \<le> roundEven (?x / 2 powi (?e - 52))" by (rule roundEven_ge)
  have "rnd64 ?x = of_int (roundEven (?x / 2 powi (?e - 52)) * 2 ^ nat (?e - 52))"
    unfolding r u by simp
  moreover have "0 \<le> roundEven (?x / 2 powi (?e - 52)) * 2 ^ nat (?e - 52)"
    using nn by simp
  ultimately show ?thesis by blast
qed

text \<open>Rounding is symmetric about zero, so the same holds for negative whole numbers.\<close>

lemma roundEven_minus: "roundEven (- y) = - roundEven y"
proof (cases "y = of_int \<lfloor>y\<rfloor>")
  case True
  then obtain m where "y = of_int m" ..
  then have "- y = of_int (- m)" by simp
  with \<open>y = of_int m\<close> show ?thesis by (simp only: roundEven_of_int)
next
  case False
  have "of_int \<lfloor>y\<rfloor> \<le> y" "y < of_int \<lfloor>y\<rfloor> + 1" by linarith+
  with False have lt: "of_int \<lfloor>y\<rfloor> < y" by linarith
  have f: "\<lfloor>- y\<rfloor> = - \<lfloor>y\<rfloor> - 1"
  proof (rule floor_unique)
    show "of_int (- \<lfloor>y\<rfloor> - 1) \<le> - y" by linarith
    show "- y < of_int (- \<lfloor>y\<rfloor> - 1) + 1" using lt by linarith
  qed
  show ?thesis
    unfolding roundEven_def Let_def f using lt by (auto simp: algebra_simps)
qed

lemma rnd64_minus: "rnd64 (- x) = - rnd64 x"
  by (simp add: rnd64_def Let_def roundEven_minus)

lemma rnd64_of_int_abs:
  assumes "\<bar>n\<bar> \<le> 2 ^ 53"
  shows "rnd64 (of_int n) = of_int n"
proof (cases "0 \<le> n")
  case True
  with assms show ?thesis by (intro rnd64_of_int) simp_all
next
  case False
  with assms have "rnd64 (of_int (- n)) = of_int (- n)" by (intro rnd64_of_int) simp_all
  then show ?thesis using rnd64_minus [of "of_int n"] by simp
qed

lemma rnd64_whole_int: "\<exists>m. rnd64 (of_int n) = of_int m"
proof (cases "0 \<le> n")
  case True
  from rnd64_whole [OF this] show ?thesis by blast
next
  case False
  then have "0 \<le> - n" by simp
  from rnd64_whole [OF this] obtain m where "rnd64 (of_int (- n)) = of_int m" by blast
  then have "rnd64 (of_int n) = of_int (- m)" using rnd64_minus [of "of_int n"] by simp
  then show ?thesis ..
qed

text \<open>
  Rounding does not cross a double: a number at or above a double \<open>t\<close> of \<open>[1, 2)\<close> rounds
  to a double at or above \<open>t\<close>.
\<close>

lemma rnd64_ge_threshold:
  assumes t: "1 \<le> t" "t < 2" "t = of_int m * 2 powi (- 52)" and x: "t \<le> x"
  shows "t \<le> rnd64 x"
proof -
  from t(1) x have pos: "0 < x" and x1: "1 \<le> x" by simp_all
  let ?e = "expo x"
  from expo_bounds [OF pos] have b: "2 powi ?e \<le> x" "x < 2 powi (?e + 1)" by simp_all
  from x1 have e0: "0 \<le> ?e" by (simp add: expo_def)
  let ?u = "(2::real) powi (?e - 52)"
  have u: "0 < ?u" by simp
  have r: "rnd64 x = of_int (roundEven (x / ?u)) * ?u"
    using pos e0 by (simp add: rnd64_def max_def Let_def)
  show ?thesis
  proof (cases "?e = 0")
    case True
    then have "of_int m \<le> x / ?u" using t(3) x by (simp add: field_simps)
    then have "m \<le> roundEven (x / ?u)" by (rule roundEven_ge)
    then have "of_int m * ?u \<le> of_int (roundEven (x / ?u)) * ?u"
      using u by (simp del: zero_less_power_int)
    with r t(3) True show ?thesis by simp
  next
    case False
    with e0 have e1: "1 \<le> ?e" by simp
    have split: "(2::real) powi ?e = 2 powi 52 * ?u"
      using power_int_add [of "2::real" 52 "?e - 52"] by simp
    then have "of_int (2 ^ 52) \<le> x / ?u" using b(1) by (simp add: field_simps)
    then have "2 ^ 52 \<le> roundEven (x / ?u)" by (rule roundEven_ge)
    then have "(of_int (2 ^ 52) :: real) \<le> of_int (roundEven (x / ?u))"
      by (simp only: of_int_le_iff)
    then have "of_int (2 ^ 52) * ?u \<le> of_int (roundEven (x / ?u)) * ?u"
      using u by (simp del: zero_less_power_int of_int_power of_int_numeral)
    then have "2 powi ?e \<le> rnd64 x" using r split by simp
    moreover have "(2::real) powi 1 \<le> 2 powi ?e" using e1 by (intro power_int_increasing) simp_all
    ultimately show ?thesis using t(2) by simp
  qed
qed

text \<open>The literal \<open>1.3\<close> denotes the double just above thirteen tenths.\<close>

lemma lit_13: "lit (13 / 10) = 5854679515581645 / 4503599627370496"
proof -
  have "roundEven ((13 / 10) / 2 powi (0 - 52)) = 5854679515581645"
    by (rule roundEven_near) (simp_all add: power_int_minus)
  from rnd64_eq [OF _ _ _ _ this] show ?thesis by (simp add: lit_def power_int_minus)
qed

text \<open>Sums and products of whole numbers are exact up to \<open>2 ^ 53\<close>.\<close>

lemma fmul_whole:
  assumes "\<bar>a * b\<bar> \<le> 2 ^ 53"
  shows "fmul (of_int a) (of_int b) = of_int (a * b)"
  using rnd64_of_int_abs [OF assms] by (simp add: fmul_def)


section \<open>Properties of the scheduler\<close>


text \<open>The sum that \<open>dueAfter\<close> takes the floor of is a whole number: nothing is cut off.\<close>

lemma dueAfter_whole:
  "of_int (dueAfter now days) =
     fadd (of_int now) (fmul (fmul (fmul (fmul (of_int days) 24) 60) 60) 1000)"
proof -
  have step: "\<exists>m. fmul (of_int a) (of_int k) = of_int m" for a k :: int
    using rnd64_whole_int [of "a * k"] by (simp add: fmul_def)
  from step [of days 24] obtain m1 where m1: "fmul (of_int days) 24 = of_int m1" by auto
  from step [of m1 60] obtain m2 where m2: "fmul (of_int m1) 60 = of_int m2" by auto
  from step [of m2 60] obtain m3 where m3: "fmul (of_int m2) 60 = of_int m3" by auto
  from step [of m3 1000] obtain m4 where m4: "fmul (of_int m3) 1000 = of_int m4" by auto
  from rnd64_whole_int [of "now + m4"] obtain m5 where
    m5: "fadd (of_int now) (of_int m4) = of_int m5" by (auto simp: fadd_def)
  show ?thesis unfolding dueAfter_def m1 m2 m3 m4 m5 by (simp only: floor_of_int)
qed

lemma updated_again:
  "updated c ''again'' now =
     c\<lparr>ease := max (fsub (ease c) (lit 0.2)) (lit 1.3), interval := 1,
       due := Some (dueAfter now 1)\<rparr>"
  by (simp add: updated_def)

lemma updated_hard:
  "updated c ''hard'' now =
     c\<lparr>ease := fadd (ease c) (lit 0.05),
       interval := max 1 \<lceil>fmul (of_int (interval c)) (lit 1.2)\<rceil>,
       due := Some (dueAfter now (max 1 \<lceil>fmul (of_int (interval c)) (lit 1.2)\<rceil>))\<rparr>"
  by (simp add: updated_def)

lemma updated_good:
  "updated c ''good'' now =
     c\<lparr>ease := fadd (ease c) (lit 0.1),
       interval := (if interval c > 0
                    then \<lceil>fmul (of_int (interval c)) (fadd (ease c) (lit 0.1))\<rceil> else 2),
       due := Some (dueAfter now (if interval c > 0
                    then \<lceil>fmul (of_int (interval c)) (fadd (ease c) (lit 0.1))\<rceil> else 2))\<rparr>"
  by (simp add: updated_def Let_def)


lemma updated_frame:
  "card_id (updated c rating now) = card_id c \<and> word (updated c rating now) = word c \<and>
   ipa (updated c rating now) = ipa c \<and> audio (updated c rating now) = audio c \<and>
   meaning (updated c rating now) = meaning c \<and> example (updated c rating now) = example c"
  by (simp add: updated_def Let_def split: prod.split)

text \<open>
  The floor of the ease: the double \<open>1.3\<close> is not below thirteen tenths, and a sum at or
  above it rounds to a double at or above it.
\<close>

lemma lit_13_bounds: "13 / 10 \<le> lit (13 / 10) \<and> 1 \<le> lit (13 / 10) \<and> lit (13 / 10) < 2 \<and>
    lit (13 / 10) = of_int 5854679515581645 * 2 powi (- 52)"
  by (simp add: lit_13 power_int_minus)

lemma lit_increments: "lit (13 / 10) \<le> 13 / 10 + lit (1 / 20) \<and> lit (13 / 10) \<le> 13 / 10 + lit (1 / 10)"
  by code_simp

lemma fadd_ease_lower:
  assumes "13 / 10 \<le> a" and "lit (13 / 10) \<le> 13 / 10 + b"
  shows "13 / 10 \<le> fadd a b"
proof -
  from assms have "lit (13 / 10) \<le> a + b" by simp
  with lit_13_bounds have "lit (13 / 10) \<le> rnd64 (a + b)"
    by (intro rnd64_ge_threshold [where m = 5854679515581645]) simp_all
  with lit_13_bounds show ?thesis by (simp add: fadd_def)
qed

lemma updated_ease_lower:
  assumes "13 / 10 \<le> ease c" and "rating \<in> {''again'', ''hard'', ''good''}"
  shows "13 / 10 \<le> ease (updated c rating now)"
proof -
  consider "rating = ''again''" | "rating = ''hard''" | "rating = ''good''"
    using assms(2) by auto
  then show ?thesis
  proof cases
    case 1
    have "13 / 10 \<le> max (fsub (ease c) (lit (1 / 5))) (lit (13 / 10))"
      using lit_13_bounds by (simp add: le_max_iff_disj)
    with 1 show ?thesis by (simp add: updated_again)
  next
    case 2
    from fadd_ease_lower [OF assms(1)] lit_increments
    have "13 / 10 \<le> fadd (ease c) (lit (1 / 20))" by simp
    with 2 show ?thesis by (simp add: updated_hard)
  next
    case 3
    from fadd_ease_lower [OF assms(1)] lit_increments
    have "13 / 10 \<le> fadd (ease c) (lit (1 / 10))" by simp
    with 3 show ?thesis by (simp add: updated_good)
  qed
qed

lemma dueCards_Nil_iff: "dueCards cs now = [] \<longleftrightarrow> (\<forall>c \<in> set cs. \<not> dueOrZero c \<le> now)"
  by (auto simp: dueCards_def filter_empty_conv)

lemma dueCards_Cons_first:
  assumes "dueCards cs now = c # rest"
  shows "\<exists>i < length cs. cs ! i = c \<and> dueOrZero c \<le> now \<and> (\<forall>j < i. \<not> dueOrZero (cs ! j) \<le> now)"
proof -
  from assms have "filter (\<lambda>c. dueOrZero c \<le> now) cs = c # rest"
    by (simp add: dueCards_def)
  then obtain pre post where cs: "cs = pre @ c # post"
    and pre: "\<forall>p \<in> set pre. \<not> dueOrZero p \<le> now" and c: "dueOrZero c \<le> now"
    by (auto simp: filter_eq_Cons_iff)
  have "length pre < length cs" using cs by simp
  moreover have "cs ! length pre = c" using cs by simp
  moreover have "\<forall>j < length pre. \<not> dueOrZero (cs ! j) \<le> now"
    using cs pre by (simp add: nth_append)
  ultimately show ?thesis using c by blast
qed


text \<open>
  A new card (ease 2.5, interval 0) rated \<open>good\<close> five times has interval 151, where
  exact arithmetic gives \<open>ceil (50 * 3) = 150\<close>: the ease after five roundings is
  just above 3.
\<close>

lemma five_goods:
  "(let c = foldl (\<lambda>c' (r, t). updated c' r t)
              \<lparr>card_id = ''7'', word = ''cat'', ipa = [], audio = [], meaning = [],
               example = [], ease = 2.5, interval = 0, due = Some 0\<rparr>
              [(''good'', 1), (''good'', 2), (''good'', 3), (''good'', 4), (''good'', 5)]
    in ease c = 6755399441055745 / 2 ^ 51 \<and> interval c = 151)"
proof -
  have l01: "lit (1 / 10) = 3602879701896397 / 36028797018963968" by code_simp
  have e1: "fadd (5 / 2) (3602879701896397 / 36028797018963968) = 5854679515581645 / 2251799813685248" by code_simp
  have e2: "fadd (5854679515581645 / 2251799813685248) (3602879701896397 / 36028797018963968) = 3039929748475085 / 1125899906842624" by code_simp
  have p2: "fmul 2 (3039929748475085 / 1125899906842624) = 3039929748475085 / 562949953421312" by code_simp
  have e3: "fadd (3039929748475085 / 1125899906842624) (3602879701896397 / 36028797018963968) = 6305039478318695 / 2251799813685248" by code_simp
  have p3: "fmul 6 (6305039478318695 / 2251799813685248) = 4728779608739021 / 281474976710656" by code_simp
  have e4: "fadd (6305039478318695 / 2251799813685248) (3602879701896397 / 36028797018963968) = 1632554864921805 / 562949953421312" by code_simp
  have p4: "fmul 17 (1632554864921805 / 562949953421312) = 6938358175917671 / 140737488355328" by code_simp
  have e5: "fadd (1632554864921805 / 562949953421312) (3602879701896397 / 36028797018963968) = 6755399441055745 / 2251799813685248" by code_simp
  have p5: "fmul 50 (6755399441055745 / 2251799813685248) = 5277655813324801 / 35184372088832" by code_simp
  show ?thesis
    by (simp add: updated_def Let_def l01 e1 e2 p2 e3 p3 e4 p4 e5 p5)
qed

text \<open>
  Beyond \<open>2 ^ 53\<close> the sum for \<open>due\<close> is rounded: 104249992 days after time 1 give
  9007199308800000, not 9007199308800001.
\<close>

lemma due_rounds:
  "dueAfter 1 104249992 = 9007199308800000 \<and>
   1 + 104249992 * 86400000 = (9007199308800001::int) \<and>
   \<not> exactRange 1 104249992"
proof -
  have a: "fmul 104249992 24 = 2501999808"
    using fmul_whole [of 104249992 24] by simp
  have b: "fmul 2501999808 60 = 150119988480"
    using fmul_whole [of 2501999808 60] by simp
  have c: "fmul 150119988480 60 = 9007199308800"
    using fmul_whole [of 150119988480 60] by simp
  have "roundEven (9007199308800000 / 2 powi (53 - 52)) = 4503599654400000"
    using roundEven_of_int [of 4503599654400000] by simp
  from rnd64_eq [OF _ _ _ _ this] have d: "fmul 9007199308800 1000 = 9007199308800000"
    by (simp add: fmul_def)
  have "roundEven (9007199308800001 / 2 powi (53 - 52)) = 4503599654400000"
    using roundEven_tie [of "9007199308800001 / 2 powi (53 - 52)" 4503599654400000] by simp
  from rnd64_eq [OF _ _ _ _ this] have e: "fadd 1 9007199308800000 = 9007199308800000"
    by (simp add: fadd_def)
  show ?thesis by (simp add: dueAfter_def a b c d e exactRange_def)
qed

section \<open>The claims about the scheduler\<close>




text \<open>
  Outside the range the sum for \<open>due\<close> is rounded as well: a card with interval 86874993,
  rated \<open>hard\<close> at time 1, gets the interval 104249992 and \<open>due = 9007199308800000\<close>, one
  less than \<open>1 + 104249992 * 86400000\<close>.
\<close>

lemma hard_rounds_due:
  "interval (updated \<lparr>card_id = ''7'', word = ''cat'', ipa = [], audio = [], meaning = ''a pet'',
            example = [], ease = 2.5, interval = 86874993, due = Some 500\<rparr> ''hard'' 1)
     = 104249992 \<and>
   due (updated \<lparr>card_id = ''7'', word = ''cat'', ipa = [], audio = [], meaning = ''a pet'',
            example = [], ease = 2.5, interval = 86874993, due = Some 500\<rparr> ''hard'' 1)
     = Some 9007199308800000 \<and>
   1 + 104249992 * 86400000 = (9007199308800001::int)"
proof -
  have "\<lceil>fmul 86874993 (lit (6 / 5))\<rceil> = 104249992" by code_simp
  with due_rounds show ?thesis by (simp add: updated_def)
qed




text \<open>
  Outside the range the new \<open>due\<close> is the rounded sum: a card with interval 104249992,
  rated \<open>easy\<close> at time 1, comes back with \<open>due = 9007199308800000\<close>, one less than
  \<open>1 + 104249992 * 86400000\<close>.
\<close>

lemma unknown_rating_rounds_due:
  "due (updated \<lparr>card_id = ''7'', word = ''cat'', ipa = [], audio = [], meaning = ''a pet'',
            example = [], ease = 2.5, interval = 104249992, due = Some 500\<rparr> ''easy'' 1)
     = Some 9007199308800000"
  using due_rounds by (simp add: updated_def)

text \<open>
  C3. A card with \<open>ease \<ge> 1.3\<close> and \<open>interval \<ge> 0\<close>, rated \<open>again\<close>, \<open>hard\<close> or \<open>good\<close>,
  still has \<open>ease \<ge> 1.3\<close>; and so after any history of such ratings, whatever the times
  at which they are given.
\<close>

theorem C3_ease_lower_bound:
  assumes "1.3 \<le> ease c" and "0 \<le> interval c"
  shows "(rating \<in> {''again'', ''hard'', ''good''} \<longrightarrow> 1.3 \<le> ease (updated c rating now)) \<and>
         ((\<forall>(r, t) \<in> set history. r \<in> {''again'', ''hard'', ''good''}) \<longrightarrow>
            1.3 \<le> ease (foldl (\<lambda>c' (r, t). updated c' r t) c history))"
proof
  show "rating \<in> {''again'', ''hard'', ''good''} \<longrightarrow> 1.3 \<le> ease (updated c rating now)"
    using updated_ease_lower [of c rating now] assms(1) by simp
next
  have "13 / 10 \<le> ease c' \<Longrightarrow> \<forall>(r, t) \<in> set h. r \<in> {''again'', ''hard'', ''good''} \<Longrightarrow>
        13 / 10 \<le> ease (foldl (\<lambda>c' (r, t). updated c' r t) c' h)" for c' h
  proof (induction h arbitrary: c')
    case Nil
    then show ?case by simp
  next
    case (Cons x h)
    obtain r t where x: "x = (r, t)" by (cases x)
    from Cons.prems(2) x have r: "r \<in> {''again'', ''hard'', ''good''}" by simp
    have "13 / 10 \<le> ease (updated c' r t)"
      using updated_ease_lower [OF Cons.prems(1) r] .
    moreover from Cons.prems(2) have "\<forall>(r, t) \<in> set h. r \<in> {''again'', ''hard'', ''good''}"
      by simp
    ultimately show ?case using Cons.IH x by simp
  qed
  from this [of c history] assms(1)
  show "(\<forall>(r, t) \<in> set history. r \<in> {''again'', ''hard'', ''good''}) \<longrightarrow>
          1.3 \<le> ease (foldl (\<lambda>c' (r, t). updated c' r t) c history)"
    by simp
qed

theorem C3_ease_lower_bound_witness:
  "(1.3::real) \<le> ease \<lparr>card_id = ''7'', word = ''cat'', ipa = [], audio = [], meaning = [],
            example = [], ease = 2.5, interval = 0, due = Some 0\<rparr> \<and>
   ''again'' \<in> {''again'', ''hard'', ''good''} \<and>
   1.3 \<le> ease (updated \<lparr>card_id = ''7'', word = ''cat'', ipa = [], audio = [], meaning = [],
            example = [], ease = 2.5, interval = 0, due = Some 0\<rparr> ''again'' 0) \<and>
   1.3 \<le> ease (foldl (\<lambda>c' (r, t). updated c' r t)
            \<lparr>card_id = ''7'', word = ''cat'', ipa = [], audio = [], meaning = [],
            example = [], ease = 2.5, interval = 0, due = Some 0\<rparr>
            [(''good'', 1), (''good'', 2), (''again'', 3)])"
  using C3_ease_lower_bound [of
      "\<lparr>card_id = ''7'', word = ''cat'', ipa = [], audio = [], meaning = [],
        example = [], ease = 2.5, interval = 0, due = Some 0\<rparr>"
      "''again''" 0 "[(''good'', 1), (''good'', 2), (''again'', 3)]"]
  by simp

text \<open>
  C4. \<open>pickNextCard\<close> shows the first card, in the order of the list, among the cards that
  are due at \<open>now\<close> (\<open>due \<le> now\<close>, a missing \<open>due\<close> read as 0): every card before it in the
  list is not due, whatever the \<open>due\<close> values of the cards after it. When no card is due
  it shows none.
\<close>

theorem C4_pickNextCard_first_due:
  "(case currentCard (pickNextCard st allCards now) of
      None \<Rightarrow> \<forall>c \<in> set allCards. \<not> (case due c of None \<Rightarrow> 0 | Some d \<Rightarrow> d) \<le> now
    | Some c \<Rightarrow>
        \<exists>i < length allCards. allCards ! i = c \<and>
          (case due c of None \<Rightarrow> 0 | Some d \<Rightarrow> d) \<le> now \<and>
          (\<forall>j < i. \<not> (case due (allCards ! j) of None \<Rightarrow> 0 | Some d \<Rightarrow> d) \<le> now)) \<and>
   ((\<forall>c \<in> set allCards. \<not> (case due c of None \<Rightarrow> 0 | Some d \<Rightarrow> d) \<le> now) \<longrightarrow>
      currentCard (pickNextCard st allCards now) = None) \<and>
   (\<forall>pre c post. allCards = pre @ c # post \<and>
      (\<forall>p \<in> set pre. \<not> (case due p of None \<Rightarrow> 0 | Some d \<Rightarrow> d) \<le> now) \<and>
      (case due c of None \<Rightarrow> 0 | Some d \<Rightarrow> d) \<le> now \<longrightarrow>
      pickNextCard st allCards now = st\<lparr>currentCard := Some c, showAnswer := False\<rparr>)"
proof -
  have first: "pickNextCard st allCards now = st\<lparr>currentCard := Some c, showAnswer := False\<rparr>"
    if "allCards = pre @ c # post" and "\<forall>p \<in> set pre. \<not> dueOrZero p \<le> now"
      and "dueOrZero c \<le> now" for pre c post
  proof -
    from that(2) have "filter (\<lambda>c. dueOrZero c \<le> now) pre = []"
      by (simp add: filter_empty_conv)
    with that(1,3) have "dueCards allCards now = c # dueCards post now"
      by (simp add: dueCards_def)
    then show ?thesis by (simp add: pickNextCard_def)
  qed
  show ?thesis
  proof (cases "dueCards allCards now")
    case Nil
    then have "currentCard (pickNextCard st allCards now) = None"
      by (simp add: pickNextCard_def)
    moreover from Nil have "\<forall>c \<in> set allCards. \<not> dueOrZero c \<le> now"
      by (simp add: dueCards_Nil_iff)
    ultimately show ?thesis using first unfolding dueOrZero_def by auto
  next
    case (Cons c rest)
    then have cur: "currentCard (pickNextCard st allCards now) = Some c"
      by (simp add: pickNextCard_def)
    from Cons have "\<not> (\<forall>c \<in> set allCards. \<not> dueOrZero c \<le> now)"
      using dueCards_Nil_iff [of allCards now] by simp
    with cur dueCards_Cons_first [OF Cons] first show ?thesis
      unfolding dueOrZero_def by simp
  qed
qed

text \<open>
  The specification's scenario: two cards with \<open>due\<close> 100 and 50, in that order, at
  \<open>now = 200\<close>: the card with \<open>due = 100\<close> is shown, and the answer hidden. With \<open>due\<close> 300
  and 50 the first card is not due and the second is shown; at \<open>now = 20\<close> no card is due
  and none is shown.
\<close>

theorem C4_pickNextCard_first_due_witness:
  "pickNextCard \<lparr>cards = [], currentCard = None, showAnswer = True, autoComplete = True\<rparr>
      [\<lparr>card_id = ''1'', word = ''cat'', ipa = [], audio = [], meaning = [],
        example = [], ease = 2.5, interval = 0, due = Some 100\<rparr>,
       \<lparr>card_id = ''2'', word = ''dog'', ipa = [], audio = [], meaning = [],
        example = [], ease = 2.5, interval = 0, due = Some 50\<rparr>] 200
     = \<lparr>cards = [],
        currentCard = Some \<lparr>card_id = ''1'', word = ''cat'', ipa = [], audio = [], meaning = [],
          example = [], ease = 2.5, interval = 0, due = Some 100\<rparr>,
        showAnswer = False, autoComplete = True\<rparr> \<and>
   pickNextCard \<lparr>cards = [], currentCard = None, showAnswer = True, autoComplete = True\<rparr>
      [\<lparr>card_id = ''1'', word = ''cat'', ipa = [], audio = [], meaning = [],
        example = [], ease = 2.5, interval = 0, due = Some 300\<rparr>,
       \<lparr>card_id = ''2'', word = ''dog'', ipa = [], audio = [], meaning = [],
        example = [], ease = 2.5, interval = 0, due = Some 50\<rparr>] 200
     = \<lparr>cards = [],
        currentCard = Some \<lparr>card_id = ''2'', word = ''dog'', ipa = [], audio = [], meaning = [],
          example = [], ease = 2.5, interval = 0, due = Some 50\<rparr>,
        showAnswer = False, autoComplete = True\<rparr> \<and>
   currentCard (pickNextCard \<lparr>cards = [], currentCard = None, showAnswer = True, autoComplete = True\<rparr>
      [\<lparr>card_id = ''1'', word = ''cat'', ipa = [], audio = [], meaning = [],
        example = [], ease = 2.5, interval = 0, due = Some 100\<rparr>,
       \<lparr>card_id = ''2'', word = ''dog'', ipa = [], audio = [], meaning = [],
        example = [], ease = 2.5, interval = 0, due = Some 50\<rparr>] 20)
     = None"
proof -
  let ?st = "\<lparr>cards = [], currentCard = None, showAnswer = True, autoComplete = True\<rparr>"
  let ?c1 = "\<lparr>card_id = ''1'', word = ''cat'', ipa = [], audio = [], meaning = [],
        example = [], ease = 2.5, interval = 0, due = Some 100\<rparr>"
  let ?c3 = "\<lparr>card_id = ''1'', word = ''cat'', ipa = [], audio = [], meaning = [],
        example = [], ease = 2.5, interval = 0, due = Some 300\<rparr>"
  let ?c2 = "\<lparr>card_id = ''2'', word = ''dog'', ipa = [], audio = [], meaning = [],
        example = [], ease = 2.5, interval = 0, due = Some 50\<rparr>"
  have a: "currentCard (pickNextCard ?st [?c1, ?c2] 20) = None"
    using C4_pickNextCard_first_due [where st = ?st and allCards = "[?c1, ?c2]" and now = 20]
    by simp
  have "[?c1, ?c2] = [] @ ?c1 # [?c2]" by simp
  then have b: "pickNextCard ?st [?c1, ?c2] 200 = ?st\<lparr>currentCard := Some ?c1, showAnswer := False\<rparr>"
    using C4_pickNextCard_first_due [where st = ?st and allCards = "[?c1, ?c2]" and now = 200,
        THEN conjunct2, THEN conjunct2, rule_format, of "[]" ?c1 "[?c2]"]
    by simp
  have "[?c3, ?c2] = [?c3] @ ?c2 # []" by simp
  then have c: "pickNextCard ?st [?c3, ?c2] 200 = ?st\<lparr>currentCard := Some ?c2, showAnswer := False\<rparr>"
    using C4_pickNextCard_first_due [where st = ?st and allCards = "[?c3, ?c2]" and now = 200,
        THEN conjunct2, THEN conjunct2, rule_format, of "[?c3]" ?c2 "[]"]
    by simp
  from a b c show ?thesis by simp
qed

text \<open>
  C5. Rating a card (with any rating) leaves \<open>id\<close>, \<open>word\<close>, \<open>ipa\<close>, \<open>audio\<close>, \<open>meaning\<close> and
  \<open>example\<close> as they were: the rated card is the old card with new values for \<open>ease\<close>,
  \<open>interval\<close> and \<open>due\<close> only.
\<close>

theorem C5_rating_frame:
  "card_id (updated c rating now) = card_id c \<and> word (updated c rating now) = word c \<and>
   ipa (updated c rating now) = ipa c \<and> audio (updated c rating now) = audio c \<and>
   meaning (updated c rating now) = meaning c \<and> example (updated c rating now) = example c \<and>
   updated c rating now =
     c\<lparr>ease := ease (updated c rating now), interval := interval (updated c rating now),
       due := due (updated c rating now)\<rparr>"
  using updated_frame [of c rating now]
  by (simp add: updated_def Let_def split: prod.split)

text \<open>
  C10. A card whose \<open>due\<close> is missing is read as due at time 0, so at every \<open>now \<ge> 0\<close> it is
  among the due cards: some card is then shown, and that card itself when no card before
  it in the list is due.
\<close>

theorem C10_missing_due_is_due:
  assumes "c \<in> set allCards" and "due c = None" and "0 \<le> now"
  shows "dueOrZero c = 0 \<and> c \<in> set (dueCards allCards now) \<and>
         currentCard (pickNextCard st allCards now) \<noteq> None \<and>
         (\<forall>pre post. allCards = pre @ c # post \<and> dueCards pre now = [] \<longrightarrow>
            currentCard (pickNextCard st allCards now) = Some c)"
proof -
  have z: "dueOrZero c = 0" using assms(2) by (simp add: dueOrZero_def)
  then have mem: "c \<in> set (dueCards allCards now)"
    using assms(1,3) by (simp add: dueCards_def)
  then obtain x xs where xs: "dueCards allCards now = x # xs"
    by (cases "dueCards allCards now") auto
  then have some: "currentCard (pickNextCard st allCards now) \<noteq> None"
    by (simp add: pickNextCard_def)
  have "currentCard (pickNextCard st allCards now) = Some c"
    if "allCards = pre @ c # post" and "dueCards pre now = []" for pre post
  proof -
    from that z assms(3) have "dueCards allCards now = c # dueCards post now"
      by (simp add: dueCards_def)
    then show ?thesis by (simp add: pickNextCard_def)
  qed
  with z mem some show ?thesis by blast
qed

theorem C10_missing_due_is_due_witness:
  "currentCard (pickNextCard \<lparr>cards = [], currentCard = None, showAnswer = True, autoComplete = True\<rparr>
      [\<lparr>card_id = ''1'', word = ''cat'', ipa = [], audio = [], meaning = [],
        example = [], ease = 2.5, interval = 0, due = Some 100\<rparr>,
       \<lparr>card_id = ''2'', word = ''dog'', ipa = [], audio = [], meaning = [],
        example = [], ease = 2.5, interval = 0, due = None\<rparr>] 0)
     = Some \<lparr>card_id = ''2'', word = ''dog'', ipa = [], audio = [], meaning = [],
        example = [], ease = 2.5, interval = 0, due = None\<rparr>"
proof -
  let ?st = "\<lparr>cards = [], currentCard = None, showAnswer = True, autoComplete = True\<rparr>"
  let ?c1 = "\<lparr>card_id = ''1'', word = ''cat'', ipa = [], audio = [], meaning = [],
        example = [], ease = 2.5, interval = 0, due = Some 100\<rparr>"
  let ?c2 = "\<lparr>card_id = ''2'', word = ''dog'', ipa = [], audio = [], meaning = [],
        example = [], ease = 2.5, interval = 0, due = None\<rparr>"
  have mem: "?c2 \<in> set [?c1, ?c2]" by simp
  have nodue: "due ?c2 = None" by simp
  have pre: "[?c1, ?c2] = [?c1] @ ?c2 # [] \<and> dueCards [?c1] 0 = []"
    by (simp add: dueCards_def dueOrZero_def)
  have now: "(0::int) \<le> 0" by simp
  from C10_missing_due_is_due [OF mem nodue now, where st = ?st] pre
  show ?thesis by blast
qed

section \<open>Properties of the string functions\<close>

lemma splitOn_no_sep: "d \<notin> set s \<Longrightarrow> splitOn d s = [s]"
  by (induction s) auto

lemma splitOn_append: "d \<notin> set f \<Longrightarrow> splitOn d (f @ d # rest) = f # splitOn d rest"
  by (induction f) auto

lemma splitOn_join:
  "fs \<noteq> [] \<Longrightarrow> \<forall>f \<in> set fs. d \<notin> set f \<Longrightarrow> splitOn d (join [d] fs) = fs"
proof (induction "[d]" fs rule: join.induct)
  case 1
  then show ?case by simp
next
  case (2 x)
  then show ?case by (simp add: splitOn_no_sep)
next
  case (3 x y ys)
  then show ?case by (simp add: splitOn_append)
qed

lemma splitLines_no_LF: "CHR 0x0A \<notin> set s \<Longrightarrow> splitLines s = [s]"
proof (induction s)
  case Nil
  then show ?case by simp
next
  case (Cons c s)
  then have "s \<noteq> [] \<Longrightarrow> hd s \<noteq> CHR 0x0A" by (cases s) auto
  with Cons show ?case by auto
qed

lemma splitLines_append:
  "CHR 0x0A \<notin> set l \<Longrightarrow> l = [] \<or> last l \<noteq> CHR 0x0D \<Longrightarrow>
   splitLines (l @ CHR 0x0A # rest) = l # splitLines rest"
proof (induction l)
  case Nil
  then show ?case by simp
next
  case (Cons c l)
  show ?case
  proof (cases l)
    case Nil
    with Cons.prems show ?thesis by simp
  next
    case (Cons c' l')
    with Cons.prems Cons.IH show ?thesis by auto
  qed
qed

lemma splitLines_join:
  "ls \<noteq> [] \<Longrightarrow> \<forall>l \<in> set ls. CHR 0x0A \<notin> set l \<and> (l = [] \<or> last l \<noteq> CHR 0x0D) \<Longrightarrow>
   splitLines (join [CHR 0x0A] ls) = ls"
proof (induction "[CHR 0x0A]" ls rule: join.induct)
  case 1
  then show ?case by simp
next
  case (2 x)
  then show ?case by (simp add: splitLines_no_LF)
next
  case (3 x y ys)
  then show ?case by (simp add: splitLines_append)
qed

lemma strip_id:
  assumes "\<forall>w \<in> set ws. w \<noteq> [] \<longrightarrow> \<not> prefix w s"
  shows "strip ws s = s"
proof -
  have "find (\<lambda>w. w \<noteq> [] \<and> prefix w s) ws = None"
    using assms by (auto simp: find_None_iff)
  then show ?thesis by (simp add: strip.simps)
qed

lemma trim_id:
  assumes "s \<noteq> []" and "hd s \<notin> hd ` set whitespace" and "last s \<notin> last ` set whitespace"
  shows "trim s = s"
proof -
  have a: "strip whitespace s = s"
  proof (rule strip_id, intro ballI impI)
    fix w assume w: "w \<in> set whitespace" "w \<noteq> []"
    show "\<not> prefix w s"
    proof
      assume "prefix w s"
      with w(2) assms(1) have "hd w = hd s"
        by (auto simp: prefix_def)
      moreover from w(1) have "hd w \<in> hd ` set whitespace" by (rule imageI)
      ultimately show False using assms(2) by simp
    qed
  qed
  have b: "strip (map rev whitespace) (rev s) = rev s"
  proof (rule strip_id, intro ballI impI)
    fix w assume w: "w \<in> set (map rev whitespace)" "w \<noteq> []"
    then obtain u where u: "u \<in> set whitespace" "w = rev u" "u \<noteq> []" by auto
    show "\<not> prefix w (rev s)"
    proof
      assume "prefix w (rev s)"
      with w(2) assms(1) have "hd w = hd (rev s)"
        by (auto simp: prefix_def)
      with u assms(1) have "last u = last s"
        by (simp add: hd_rev)
      moreover from u(1) have "last u \<in> last ` set whitespace" by (rule imageI)
      ultimately show False using assms(3) by simp
    qed
  qed
  show ?thesis by (simp add: trim_def trimStart_def trimEnd_def a b)
qed

lemma trim_Nil: "trim [] = []"
  by (simp add: trim_def trimStart_def trimEnd_def strip.simps whitespace_def)

section \<open>Properties of the lookup and of the import loop\<close>

lemma fetchDictionary_Inr: "\<exists>v. fetchDictionary net w = Inr v"
  by (simp add: fetchDictionary_def split: sum.split)

lemma fetchDictionary_failure:
  assumes "fetchDictionary_try net w = Inl e"
  shows "fetchDictionary net w = Inr \<lparr>fetched_ipa = [], fetched_audio = [], fetched_meaning = []\<rparr>"
  using assms by (simp add: fetchDictionary_def)

lemma completeCard_Inr:
  "\<exists>c'. completeCard d ac c = Inr c' \<and> card_id c' = card_id c \<and> word c' = word c \<and>
        example c' = example c \<and> ease c' = ease c \<and> interval c' = interval c \<and> due c' = due c \<and>
        (ipa c \<noteq> [] \<longrightarrow> ipa c' = ipa c) \<and> (audio c \<noteq> [] \<longrightarrow> audio c' = audio c) \<and>
        (meaning c \<noteq> [] \<longrightarrow> meaning c' = meaning c) \<and> (\<not> ac \<longrightarrow> c' = c)"
proof -
  obtain v where v: "fetchDictionary (fetch d) (word c) = Inr v"
    using fetchDictionary_Inr by blast
  then show ?thesis
    by (simp add: completeCard_def strOr_def)
qed

lemma importRows_enumerate:
  "importRows P env ac i rows newCards =
     Inr (newCards @
          map (\<lambda>(j, entry). projr (completeCard (env j) ac (newCard P (env j) entry (resolveWord entry))))
              (filter (\<lambda>(j, entry). resolveWord entry \<noteq> []) (enumerate i rows)))"
proof (induction rows arbitrary: i newCards)
  case Nil
  then show ?case by simp
next
  case (Cons entry rest)
  show ?case
  proof (cases "resolveWord entry = []")
    case True
    then show ?thesis using Cons.IH by simp
  next
    case False
    obtain c where c: "completeCard (env i) ac (newCard P (env i) entry (resolveWord entry)) = Inr c"
      using completeCard_Inr by blast
    with False show ?thesis using Cons.IH by simp
  qed
qed

lemma readRows_csv:
  "\<not> isJsonName (file_name f) \<Longrightarrow> file_text f = Inr text \<Longrightarrow> readRows P f = Inr (parseCSV text)"
  by (simp add: readRows_def)

lemma handleFileImport_rows:
  assumes "readRows P f = Inr rows"
  shows "handleFileImport P env st (Some f) =
     Inr (st\<lparr>cards := cards st @
          map (\<lambda>(j, entry). projr (completeCard (env j) (autoComplete st) (newCard P (env j) entry (resolveWord entry))))
              (filter (\<lambda>(j, entry). resolveWord entry \<noteq> []) (enumerate 0 rows))\<rparr>)"
  using assms by (simp add: handleFileImport_def importRows_enumerate)

lemma resolveWord_priority:
  "resolveWord entry =
     trim (case find truthy [entry ''word'', entry ''Word'', entry ''term'', entry ''Term''] of
             Some (Some s) \<Rightarrow> s
           | _ \<Rightarrow> [])"
  by (simp add: resolveWord_def js_or_def truthy_def orString_def split: option.splits)

lemma snd_filter_enumerate:
  "map snd (filter (\<lambda>(i, e). Q e) (enumerate n xs)) = filter Q xs"
  by (induction xs arbitrary: n) auto

lemma imported_card:
  fixes d ac P entry w
  defines "c \<equiv> projr (completeCard d ac (newCard P d entry w))"
  shows "completeCard d ac (newCard P d entry w) = Inr c"
    and "word c = w"
    and "card_id c = numToString P (of_int (now_id d)) @ ''-'' @ numToString P (random d)"
    and "ease c = 2.5" and "interval c = 0" and "due c = Some (now_due d)"
    and "example c = example (newCard P d entry w)"
    and "ipa (newCard P d entry w) \<noteq> [] \<Longrightarrow> ipa c = ipa (newCard P d entry w)"
    and "audio (newCard P d entry w) \<noteq> [] \<Longrightarrow> audio c = audio (newCard P d entry w)"
    and "meaning (newCard P d entry w) \<noteq> [] \<Longrightarrow> meaning c = meaning (newCard P d entry w)"
proof -
  let ?n = "newCard P d entry w"
  obtain c' where c': "completeCard d ac ?n = Inr c'"
      "card_id c' = card_id ?n" "word c' = word ?n" "example c' = example ?n" "ease c' = ease ?n"
      "interval c' = interval ?n" "due c' = due ?n"
      "ipa ?n \<noteq> [] \<longrightarrow> ipa c' = ipa ?n" "audio ?n \<noteq> [] \<longrightarrow> audio c' = audio ?n"
      "meaning ?n \<noteq> [] \<longrightarrow> meaning c' = meaning ?n"
    using completeCard_Inr [of d ac ?n] by blast
  then have eq: "c = c'" by (simp add: c_def)
  show "completeCard d ac ?n = Inr c" using c'(1) eq by simp
  show "word c = w" using c'(3) eq by (simp add: newCard_def)
  show "card_id c = numToString P (of_int (now_id d)) @ ''-'' @ numToString P (random d)"
    using c'(2) eq by (simp add: newCard_def)
  show "ease c = 2.5" using c'(5) eq by (simp add: newCard_def)
  show "interval c = 0" using c'(6) eq by (simp add: newCard_def)
  show "due c = Some (now_due d)" using c'(7) eq by (simp add: newCard_def)
  show "example c = example ?n" using c'(4) eq by simp
  show "ipa ?n \<noteq> [] \<Longrightarrow> ipa c = ipa ?n" using c'(8) eq by simp
  show "audio ?n \<noteq> [] \<Longrightarrow> audio c = audio ?n" using c'(9) eq by simp
  show "meaning ?n \<noteq> [] \<Longrightarrow> meaning c = meaning ?n" using c'(10) eq by simp
qed

section \<open>The CSV export read back\<close>

lemma numberText_chars:
  assumes "numberText s"
  shows "CHR '','' \<notin> set s" and "CHR 0x0A \<notin> set s" and "s \<noteq> []"
    and "last s \<noteq> CHR 0x0D" and "last s \<notin> last ` set whitespace"
proof -
  from assms have ne: "s \<noteq> []" and sub: "set s \<subseteq> set ''0123456789.+-eInfityNa''"
    by (simp_all add: numberText_def)
  from sub show "CHR '','' \<notin> set s" by auto
  from sub show "CHR 0x0A \<notin> set s" by auto
  from ne show "s \<noteq> []" .
  from ne have "last s \<in> set s" by simp
  with sub have l: "last s \<in> set ''0123456789.+-eInfityNa''" by blast
  then show "last s \<noteq> CHR 0x0D" by auto
  from l show "last s \<notin> last ` set whitespace"
    by (auto simp: whitespace_def)
qed

lemma cardField_values:
  "map (cardField P c) csvHeaders =
     [word c, ipa c, audio c, meaning c, example c, numToString P (ease c),
      numToString P (of_int (interval c)),
      (case due c of None \<Rightarrow> [] | Some d \<Rightarrow> numToString P (of_int d))]"
  by (simp add: csvHeaders_def cardField_def)

lemma dueText_cases:
  assumes "\<forall>x. numberText (numToString P x)"
  shows "(case due c of None \<Rightarrow> [] | Some d \<Rightarrow> numToString P (of_int d)) = [] \<or>
         numberText (case due c of None \<Rightarrow> [] | Some d \<Rightarrow> numToString P (of_int d))"
  using assms by (cases "due c") auto

lemma csvRow_split:
  assumes num: "\<forall>x. numberText (numToString P x)"
    and plain: "plainField (word c)" "plainField (ipa c)" "plainField (audio c)"
      "plainField (meaning c)" "plainField (example c)"
  shows "splitOn CHR '','' (csvRow P c) = map (cardField P c) csvHeaders"
proof -
  have "\<forall>f \<in> set (map (cardField P c) csvHeaders). CHR '','' \<notin> set f"
    using plain numberText_chars(1) [OF num [rule_format]]
    by (auto simp: cardField_values plainField_def split: option.split)
  moreover have "map (cardField P c) csvHeaders \<noteq> []" by (simp add: csvHeaders_def)
  ultimately show ?thesis
    unfolding csvRow_def using splitOn_join [of "map (cardField P c) csvHeaders" "CHR '',''"]
    by simp
qed

lemma csvRow_shape:
  assumes num: "\<forall>x. numberText (numToString P x)"
    and plain: "plainField (word c)" "plainField (ipa c)" "plainField (audio c)"
      "plainField (meaning c)" "plainField (example c)"
  shows "CHR 0x0A \<notin> set (csvRow P c)" and "csvRow P c \<noteq> []"
    and "last (csvRow P c) \<noteq> CHR 0x0D" and "last (csvRow P c) \<notin> last ` set whitespace"
proof -
  let ?d = "case due c of None \<Rightarrow> [] | Some d \<Rightarrow> numToString P (of_int d)"
  have line: "csvRow P c = word c @ '','' @ ipa c @ '','' @ audio c @ '','' @ meaning c @ '',''
      @ example c @ '','' @ numToString P (ease c) @ '','' @ numToString P (of_int (interval c))
      @ '','' @ ?d"
    by (simp add: csvRow_def cardField_values)
  have d: "CHR 0x0A \<notin> set ?d"
    using numberText_chars(2) [OF num [rule_format]] by (simp split: option.split)
  show "CHR 0x0A \<notin> set (csvRow P c)"
    using plain d numberText_chars(2) [OF num [rule_format]]
    by (simp add: line plainField_def)
  show "csvRow P c \<noteq> []" by (simp add: line)
  have comma: "CHR '','' \<noteq> CHR 0x0D" "CHR '','' \<notin> last ` set whitespace"
    by (simp_all add: whitespace_def)
  have "last (csvRow P c) = (if ?d = [] then CHR '','' else last ?d)"
    by (simp add: line)
  moreover have "?d \<noteq> [] \<Longrightarrow> last ?d \<noteq> CHR 0x0D \<and> last ?d \<notin> last ` set whitespace"
    using dueText_cases [OF num, of c] numberText_chars(4,5) by blast
  ultimately show "last (csvRow P c) \<noteq> CHR 0x0D" "last (csvRow P c) \<notin> last ` set whitespace"
    using comma by auto
qed

lemma parseLine_export:
  assumes num: "\<forall>x. numberText (numToString P x)"
    and plain: "plainField (word c)" "plainField (ipa c)" "plainField (audio c)"
      "plainField (meaning c)" "plainField (example c)"
  defines "r \<equiv> parseLine csvHeaders (csvRow P c)"
  shows "r ''word'' = Some (word c)" "r ''Word'' = None" "r ''term'' = None" "r ''Term'' = None"
    "r ''ipa'' = Some (ipa c)" "r ''IPA'' = None"
    "r ''audio'' = Some (audio c)" "r ''Audio'' = None"
    "r ''meaning'' = Some (meaning c)" "r ''Meaning'' = None"
    "r ''example'' = Some (example c)" "r ''Example'' = None"
proof -
  have t: "trim (word c) = word c" "trim (ipa c) = ipa c" "trim (audio c) = audio c"
    "trim (meaning c) = meaning c" "trim (example c) = example c"
    using plain by (simp_all add: plainField_def)
  have r: "r = fold (\<lambda>(h, idx) obj. setProp obj h (trim (nthOrEmpty (map (cardField P c) csvHeaders) idx)))
              (zip csvHeaders [0..<length csvHeaders]) Map.empty"
    unfolding r_def parseLine_def Let_def csvRow_split [OF num plain] ..
  have idx: "zip csvHeaders [0..<length csvHeaders] =
      [(''word'', 0), (''ipa'', 1), (''audio'', 2), (''meaning'', 3), (''example'', 4),
       (''ease'', 5), (''interval'', 6), (''due'', 7)]"
    by (simp add: csvHeaders_def upt_rec)
  show "r ''word'' = Some (word c)" "r ''Word'' = None" "r ''term'' = None" "r ''Term'' = None"
    "r ''ipa'' = Some (ipa c)" "r ''IPA'' = None"
    "r ''audio'' = Some (audio c)" "r ''Audio'' = None"
    "r ''meaning'' = Some (meaning c)" "r ''Meaning'' = None"
    "r ''example'' = Some (example c)" "r ''Example'' = None"
    unfolding r idx by (simp_all add: cardField_values setProp_def nthOrEmpty_def t)
qed

lemma resolveWord_export:
  assumes num: "\<forall>x. numberText (numToString P x)"
    and plain: "plainField (word c)" "plainField (ipa c)" "plainField (audio c)"
      "plainField (meaning c)" "plainField (example c)"
  shows "resolveWord (parseLine csvHeaders (csvRow P c)) = word c"
proof -
  have "trim (word c) = word c" using plain(1) by (simp add: plainField_def)
  then show ?thesis
    by (simp add: resolveWord_def parseLine_export [OF num plain] js_or_def truthy_def
        orString_def trim_Nil)
qed

lemma newCard_export:
  assumes num: "\<forall>x. numberText (numToString P x)"
    and plain: "plainField (word c)" "plainField (ipa c)" "plainField (audio c)"
      "plainField (meaning c)" "plainField (example c)"
  shows "newCard Q d (parseLine csvHeaders (csvRow P c)) w =
     \<lparr>card_id = numToString Q (of_int (now_id d)) @ ''-'' @ numToString Q (random d),
      word = w, ipa = ipa c, audio = audio c, meaning = meaning c, example = example c,
      ease = 2.5, interval = 0, due = Some (now_due d)\<rparr>"
  by (simp add: newCard_def parseLine_export [OF num plain] js_or_def truthy_def orString_def)

lemma header_line:
  "map trim (splitOn CHR '','' (join '','' csvHeaders)) = csvHeaders"
proof -
  have "splitOn CHR '','' (join '','' csvHeaders) = csvHeaders"
    using splitOn_join [of csvHeaders "CHR '',''"] by (simp add: csvHeaders_def)
  moreover have "map trim csvHeaders = csvHeaders"
    by (simp add: csvHeaders_def trim_id whitespace_def)
  ultimately show ?thesis by simp
qed

lemma parseCSV_export:
  assumes num: "\<forall>x. numberText (numToString P x)"
    and plain: "\<forall>c \<in> set (cards st). plainField (word c) \<and> plainField (ipa c) \<and>
       plainField (audio c) \<and> plainField (meaning c) \<and> plainField (example c)"
  shows "parseCSV (exportCSV P st) = map (\<lambda>c. parseLine csvHeaders (csvRow P c)) (cards st)"
proof -
  let ?hdr = "join '','' csvHeaders"
  let ?rows = "map (csvRow P) (cards st)"
  have ex: "exportCSV P st = join [CHR 0x0A] (?hdr # ?rows)"
    by (simp add: exportCSV_def csvRow_def)
  have hdr: "?hdr = ''word,ipa,audio,meaning,example,ease,interval,due''"
    by (simp add: csvHeaders_def)
  have lines: "\<forall>l \<in> set (?hdr # ?rows). CHR 0x0A \<notin> set l \<and> l \<noteq> [] \<and> last l \<noteq> CHR 0x0D \<and>
        last l \<notin> last ` set whitespace"
  proof
    fix l assume "l \<in> set (?hdr # ?rows)"
    then consider "l = ?hdr" | c where "c \<in> set (cards st)" "l = csvRow P c" by auto
    then show "CHR 0x0A \<notin> set l \<and> l \<noteq> [] \<and> last l \<noteq> CHR 0x0D \<and> last l \<notin> last ` set whitespace"
    proof cases
      case 1
      then show ?thesis by (simp add: hdr whitespace_def)
    next
      case 2
      from plain 2(1) have p: "plainField (word c)" "plainField (ipa c)" "plainField (audio c)"
        "plainField (meaning c)" "plainField (example c)" by simp_all
      from csvRow_shape [OF num p] 2(2) show ?thesis by simp
    qed
  qed
  have ne: "exportCSV P st \<noteq> []" and hd: "hd (exportCSV P st) = CHR ''w''"
    unfolding ex by (cases "cards st"; simp add: hdr)+
  have last_join': "xs \<noteq> [] \<Longrightarrow> last xs \<noteq> [] \<Longrightarrow>
      join sep xs \<noteq> [] \<and> last (join sep xs) = last (last xs)" for sep xs
    by (induction sep xs rule: join.induct) auto
  then have last_join: "xs \<noteq> [] \<Longrightarrow> last xs \<noteq> [] \<Longrightarrow> last (join sep xs) = last (last xs)" for sep xs
    by blast
  have mem: "last (?hdr # ?rows) \<in> set (?hdr # ?rows)" by (rule last_in_set) simp
  with lines have "last (?hdr # ?rows) \<noteq> []" by blast
  then have "last (exportCSV P st) = last (last (?hdr # ?rows))"
    unfolding ex by (intro last_join) simp_all
  with mem lines have lst: "last (exportCSV P st) \<notin> last ` set whitespace"
    by metis
  have "CHR ''w'' \<notin> hd ` set whitespace" by (simp add: whitespace_def)
  with ne hd lst have tr: "trim (exportCSV P st) = exportCSV P st"
    by (simp add: trim_id)
  have sp: "splitLines (exportCSV P st) = ?hdr # ?rows"
    unfolding ex using lines by (intro splitLines_join) auto
  show ?thesis
    by (simp add: parseCSV_def tr sp header_line Let_def)
qed

section \<open>Evaluation\<close>

text \<open>The definitions that evaluate an import or an export on a given input.\<close>

lemmas eval_defs = handleFileImport_def readRows_def isJsonName_def toLowerAscii_def suffix_to_prefix
  exportCSV_def csvRow_def cardField_def csvHeaders_def parseCSV_def parseLine_def setProp_def
  nthOrEmpty_def trim_def trimStart_def trimEnd_def whitespace_def strip.simps
  resolveWord_def newCard_def completeCard_def js_or_def truthy_def orString_def strOr_def Let_def

text \<open>
  The operator \<open>||\<close>, the word of a row, the lookup and the due cards on given inputs: an
  empty \<open>word\<close> lets \<open>Word\<close> through, the lookup delivers the first definition of the
  first meaning, and a card is due by its own \<open>due\<close>, a missing one read as 0.
\<close>

lemma truthy_values: "\<not> truthy None \<and> \<not> truthy (Some []) \<and> truthy (Some ''a'')"
  by (simp add: truthy_def)

lemma resolveWord_values:
  "resolveWord [''word'' \<mapsto> [], ''Word'' \<mapsto> ''dog''] = ''dog'' \<and>
   resolveWord [''word'' \<mapsto> '' cat '', ''Word'' \<mapsto> ''dog''] = ''cat'' \<and>
   resolveWord [''Term'' \<mapsto> ''owl''] = ''owl'' \<and>
   resolveWord [''word'' \<mapsto> []] = []"
  by (simp add: eval_defs)

lemma entryMeaning_values:
  "entryMeaning \<lparr>phonetics = None, meanings = Some
      [\<lparr>mean_definitions = Some [\<lparr>def_definition = Some ''a feline''\<rparr>,
                                  \<lparr>def_definition = Some ''a cat''\<rparr>]\<rparr>]\<rparr> = ''a feline'' \<and>
   entryMeaning \<lparr>phonetics = None, meanings = None\<rparr> = []"
  by (simp add: entryMeaning_def)

lemma dueCards_values:
  "dueCards
     [\<lparr>card_id = ''1'', word = ''cat'', ipa = [], audio = [], meaning = [],
       example = [], ease = 2.5, interval = 0, due = Some 300\<rparr>,
      \<lparr>card_id = ''2'', word = ''dog'', ipa = [], audio = [], meaning = [],
       example = [], ease = 2.5, interval = 0, due = Some 50\<rparr>,
      \<lparr>card_id = ''3'', word = ''owl'', ipa = [], audio = [], meaning = [],
       example = [], ease = 2.5, interval = 0, due = None\<rparr>,
      \<lparr>card_id = ''4'', word = ''eel'', ipa = [], audio = [], meaning = [],
       example = [], ease = 2.5, interval = 0, due = Some 200\<rparr>] 200 =
     [\<lparr>card_id = ''2'', word = ''dog'', ipa = [], audio = [], meaning = [],
       example = [], ease = 2.5, interval = 0, due = Some 50\<rparr>,
      \<lparr>card_id = ''3'', word = ''owl'', ipa = [], audio = [], meaning = [],
       example = [], ease = 2.5, interval = 0, due = None\<rparr>,
      \<lparr>card_id = ''4'', word = ''eel'', ipa = [], audio = [], meaning = [],
       example = [], ease = 2.5, interval = 0, due = Some 200\<rparr>]"
  by (simp add: dueCards_def dueOrZero_def)

section \<open>The claims about import and export\<close>

text \<open>
  C6, as amended. For every list of raw rows the import loop
  \<^item> takes the word of a row from the first of the properties \<open>word\<close>, \<open>Word\<close>, \<open>term\<close>,
    \<open>Term\<close> that is truthy (the empty string when none is), trimmed;
  \<^item> skips each row whose word is then empty, and makes one card for each other row, in
    the order of the rows;
  \<^item> gives each card that word, \<open>ease = 2.5\<close>, \<open>interval = 0\<close>, \<open>due\<close> the clock reading
    taken for the row, and as id the text of the clock reading, a dash, and the text of
    the random number drawn for the row. The ids of the new cards are pairwise distinct
    whenever these texts are; nothing else makes them unique.
  The handler appends these cards to the list of cards.
\<close>

theorem C6_import_rows:
  "resolveWord entry =
     trim (case find truthy [entry ''word'', entry ''Word'', entry ''term'', entry ''Term''] of
             Some (Some s) \<Rightarrow> s
           | _ \<Rightarrow> []) \<and>
   (\<exists>newCards.
      importRows P env ac 0 rows [] = Inr newCards \<and>
      (\<forall>f. readRows P f = Inr rows \<and> autoComplete st = ac \<longrightarrow>
           handleFileImport P env st (Some f) = Inr (st\<lparr>cards := cards st @ newCards\<rparr>)) \<and>
      map word newCards = filter (\<lambda>w. w \<noteq> []) (map resolveWord rows) \<and>
      (let kept = filter (\<lambda>(i, entry). resolveWord entry \<noteq> []) (enumerate 0 rows)
       in length newCards = length kept \<and>
          (\<forall>k < length kept.
             word (newCards ! k) = resolveWord (snd (kept ! k)) \<and>
             card_id (newCards ! k) =
               numToString P (of_int (now_id (env (fst (kept ! k))))) @ ''-'' @
               numToString P (random (env (fst (kept ! k)))) \<and>
             ease (newCards ! k) = 2.5 \<and> interval (newCards ! k) = 0 \<and>
             due (newCards ! k) = Some (now_due (env (fst (kept ! k))))) \<and>
          (distinct (map (\<lambda>(i, entry). numToString P (of_int (now_id (env i))) @ ''-'' @
                                        numToString P (random (env i))) kept) \<longrightarrow>
             distinct (map card_id newCards))))"
proof
  show "resolveWord entry =
     trim (case find truthy [entry ''word'', entry ''Word'', entry ''term'', entry ''Term''] of
             Some (Some s) \<Rightarrow> s
           | _ \<Rightarrow> [])"
    by (rule resolveWord_priority)
next
  let ?G = "\<lambda>(j, entry). projr (completeCard (env j) ac (newCard P (env j) entry (resolveWord entry)))"
  let ?kept = "filter (\<lambda>(i, entry). resolveWord entry \<noteq> []) (enumerate 0 rows)"
  let ?new = "map ?G ?kept"
  let ?idOf = "\<lambda>(i, entry). numToString P (of_int (now_id (env i))) @ ''-'' @
                                        numToString P (random (env i))"
  have run: "importRows P env ac 0 rows [] = Inr ?new"
    by (simp add: importRows_enumerate)
  have handler: "\<forall>f. readRows P f = Inr rows \<and> autoComplete st = ac \<longrightarrow>
           handleFileImport P env st (Some f) = Inr (st\<lparr>cards := cards st @ ?new\<rparr>)"
    using handleFileImport_rows [of P _ rows env st] by auto
  have w: "word (?G x) = resolveWord (snd x)" for x
    by (cases x) (simp add: imported_card(2))
  have i: "card_id (?G x) = ?idOf x" for x
    by (cases x) (simp add: imported_card(3))
  have "map word ?new = map resolveWord (map snd ?kept)"
    by (simp add: w)
  also have "\<dots> = map resolveWord (filter (\<lambda>e. resolveWord e \<noteq> []) rows)"
    by (simp only: snd_filter_enumerate)
  also have "\<dots> = filter (\<lambda>w. w \<noteq> []) (map resolveWord rows)"
    by (simp add: filter_map comp_def)
  finally have words: "map word ?new = filter (\<lambda>w. w \<noteq> []) (map resolveWord rows)" .
  have fields: "\<forall>k < length ?kept.
             word (?new ! k) = resolveWord (snd (?kept ! k)) \<and>
             card_id (?new ! k) =
               numToString P (of_int (now_id (env (fst (?kept ! k))))) @ ''-'' @
               numToString P (random (env (fst (?kept ! k)))) \<and>
             ease (?new ! k) = 2.5 \<and> interval (?new ! k) = 0 \<and>
             due (?new ! k) = Some (now_due (env (fst (?kept ! k))))"
  proof (intro allI impI)
    fix k assume k: "k < length ?kept"
    obtain j e where je: "?kept ! k = (j, e)" by (cases "?kept ! k")
    from k have "?new ! k = ?G (?kept ! k)" by simp
    with je have "?new ! k = projr (completeCard (env j) ac (newCard P (env j) e (resolveWord e)))"
      by simp
    with je imported_card(2-6) [of "env j" ac P e "resolveWord e"]
    show "word (?new ! k) = resolveWord (snd (?kept ! k)) \<and>
             card_id (?new ! k) =
               numToString P (of_int (now_id (env (fst (?kept ! k))))) @ ''-'' @
               numToString P (random (env (fst (?kept ! k)))) \<and>
             ease (?new ! k) = 2.5 \<and> interval (?new ! k) = 0 \<and>
             due (?new ! k) = Some (now_due (env (fst (?kept ! k))))"
      by simp
  qed
  have "map card_id ?new = map ?idOf ?kept"
    by (simp add: i)
  then have ids: "distinct (map ?idOf ?kept) \<longrightarrow> distinct (map card_id ?new)"
    by (simp only: simp_thms)
  have len: "length ?new = length ?kept" by simp
  show "\<exists>newCards.
      importRows P env ac 0 rows [] = Inr newCards \<and>
      (\<forall>f. readRows P f = Inr rows \<and> autoComplete st = ac \<longrightarrow>
           handleFileImport P env st (Some f) = Inr (st\<lparr>cards := cards st @ newCards\<rparr>)) \<and>
      map word newCards = filter (\<lambda>w. w \<noteq> []) (map resolveWord rows) \<and>
      (let kept = filter (\<lambda>(i, entry). resolveWord entry \<noteq> []) (enumerate 0 rows)
       in length newCards = length kept \<and>
          (\<forall>k < length kept.
             word (newCards ! k) = resolveWord (snd (kept ! k)) \<and>
             card_id (newCards ! k) =
               numToString P (of_int (now_id (env (fst (kept ! k))))) @ ''-'' @
               numToString P (random (env (fst (kept ! k)))) \<and>
             ease (newCards ! k) = 2.5 \<and> interval (newCards ! k) = 0 \<and>
             due (newCards ! k) = Some (now_due (env (fst (kept ! k))))) \<and>
          (distinct (map (\<lambda>(i, entry). numToString P (of_int (now_id (env i))) @ ''-'' @
                                        numToString P (random (env i))) kept) \<longrightarrow>
             distinct (map card_id newCards)))"
    unfolding Let_def
    using run handler words len fields ids by (intro exI [of _ ?new] conjI)
qed

text \<open>
  The specification's scenario: the rows \<open>word = cat\<close> and \<open>word =\<close> (empty) give exactly
  one card, for \<open>cat\<close>.
\<close>

theorem C6_import_rows_witness:
  "\<exists>newCards.
     importRows
       \<lparr>numToString = (\<lambda>x. if x = 1700000000000 then ''1700000000000''
                            else if x = 1 / 2 then ''0.5'' else ''0''),
        JSON_parse = (\<lambda>s. Inl SyntaxError)\<rparr>
       (\<lambda>i. \<lparr>now_id = 1700000000000, random = 1 / 2, now_due = 1700000000001,
              fetch = (\<lambda>u. Inl TypeError)\<rparr>)
       True 0 [[''word'' \<mapsto> ''cat''], [''word'' \<mapsto> []]] [] = Inr newCards \<and>
     map word newCards = [''cat''] \<and> length newCards = 1 \<and>
     card_id (newCards ! 0) = ''1700000000000-0.5'' \<and>
     ease (newCards ! 0) = 2.5 \<and> interval (newCards ! 0) = 0 \<and>
     due (newCards ! 0) = Some 1700000000001"
proof -
  let ?P = "\<lparr>numToString = (\<lambda>x. if x = 1700000000000 then ''1700000000000''
                            else if x = 1 / 2 then ''0.5'' else ''0''),
        JSON_parse = (\<lambda>s. Inl SyntaxError)\<rparr>"
  let ?env = "\<lambda>i :: nat. \<lparr>now_id = 1700000000000, random = 1 / 2, now_due = 1700000000001,
              fetch = (\<lambda>u. Inl TypeError)\<rparr>"
  let ?r1 = "[''word'' \<mapsto> ''cat'']" and ?r2 = "[''word'' \<mapsto> []]"
  let ?st = "\<lparr>cards = [], currentCard = None, showAnswer = False, autoComplete = True\<rparr>"
  have w1: "resolveWord ?r1 = ''cat''" and w2: "resolveWord ?r2 = []"
    by (simp_all add: resolveWord_def js_or_def truthy_def orString_def trim_def trimStart_def
        trimEnd_def whitespace_def strip.simps)
  have kept: "filter (\<lambda>(i, entry). resolveWord entry \<noteq> []) (enumerate 0 [?r1, ?r2]) = [(0, ?r1)]"
    by (simp add: w1 w2)
  show ?thesis
    using C6_import_rows [where P = ?P and env = ?env and ac = True and rows = "[?r1, ?r2]"
        and entry = ?r1 and st = ?st, THEN conjunct2]
    by (simp add: w1 w2 newCard_def completeCard_def fetchDictionary_def fetchDictionary_try_def
        js_or_def truthy_def orString_def strOr_def)
qed

text \<open>
  The claim as the specification states it promises every produced card a unique id. The
  id is the text \<open>Date.now()\<close>, a dash, \<open>Math.random()\<close>, and nothing compares it with
  the ids already given: when both readings repeat, two cards of one import get the same
  id. Here the clock reads 1700000000000 and the random number is 0.5 for both rows of
  the file.
\<close>

theorem C6_counterexample:
  "(case handleFileImport
      \<lparr>numToString = (\<lambda>x. if x = 1700000000000 then ''1700000000000''
                           else if x = 1 / 2 then ''0.5'' else ''0''),
       JSON_parse = (\<lambda>s. Inl SyntaxError)\<rparr>
      (\<lambda>i. \<lparr>now_id = 1700000000000, random = 1 / 2, now_due = 1700000000000,
             fetch = (\<lambda>u. Inl TypeError)\<rparr>)
      \<lparr>cards = [], currentCard = None, showAnswer = False, autoComplete = False\<rparr>
      (Some \<lparr>file_name = ''words.csv'',
             file_text = Inr (''word'' @ [CHR 0x0A] @ ''cat'' @ [CHR 0x0A] @ ''dog'')\<rparr>) of
      Inl e \<Rightarrow> []
    | Inr s \<Rightarrow> map (\<lambda>c. (word c, card_id c)) (cards s))
   = [(''cat'', ''1700000000000-0.5''), (''dog'', ''1700000000000-0.5'')]"
  by (simp add: eval_defs)

text \<open>
  C7, as amended. Take a collection in which every card has a non-empty word and each of
  \<open>word\<close>, \<open>ipa\<close>, \<open>audio\<close>, \<open>meaning\<close>, \<open>example\<close> has no comma, no line feed and nothing
  for \<open>trim\<close> to remove, and a platform that writes numbers as number text. Importing
  the text of its CSV export, from a file whose name does not end in \<open>.json\<close>, appends
  one card per exported card, in order, with the same \<open>word\<close> and \<open>example\<close>, and with
  the same \<open>ipa\<close>, \<open>audio\<close> and \<open>meaning\<close> wherever the exported value is not empty or
  auto-complete is off (with auto-complete on, an empty one of these is filled from the
  lookup). The scheduling fields start afresh: \<open>ease = 2.5\<close>, \<open>interval = 0\<close>, \<open>due\<close> the
  clock reading of the import.
\<close>

theorem C7_csv_round_trip:
  assumes num: "\<forall>x. numberText (numToString P x)"
    and plain: "\<forall>c \<in> set (cards st). word c \<noteq> [] \<and> plainField (word c) \<and> plainField (ipa c) \<and>
       plainField (audio c) \<and> plainField (meaning c) \<and> plainField (example c)"
    and name: "\<not> isJsonName (file_name f)"
    and content: "file_text f = Inr (exportCSV P st)"
  shows "\<exists>newCards.
     handleFileImport P env st' (Some f) = Inr (st'\<lparr>cards := cards st' @ newCards\<rparr>) \<and>
     length newCards = length (cards st) \<and>
     (\<forall>k < length (cards st).
        word (newCards ! k) = word (cards st ! k) \<and>
        example (newCards ! k) = example (cards st ! k) \<and>
        (ipa (cards st ! k) \<noteq> [] \<or> \<not> autoComplete st' \<longrightarrow> ipa (newCards ! k) = ipa (cards st ! k)) \<and>
        (audio (cards st ! k) \<noteq> [] \<or> \<not> autoComplete st' \<longrightarrow> audio (newCards ! k) = audio (cards st ! k)) \<and>
        (meaning (cards st ! k) \<noteq> [] \<or> \<not> autoComplete st' \<longrightarrow>
           meaning (newCards ! k) = meaning (cards st ! k)) \<and>
        ease (newCards ! k) = 2.5 \<and> interval (newCards ! k) = 0 \<and>
        due (newCards ! k) = Some (now_due (env k)))"
proof -
  let ?R = "\<lambda>c. parseLine csvHeaders (csvRow P c)"
  let ?G = "\<lambda>(j, entry). projr (completeCard (env j) (autoComplete st')
                (newCard P (env j) entry (resolveWord entry)))"
  let ?rows = "map ?R (cards st)"
  let ?new = "map ?G (enumerate 0 ?rows)"
  have plain': "\<forall>c \<in> set (cards st). plainField (word c) \<and> plainField (ipa c) \<and>
       plainField (audio c) \<and> plainField (meaning c) \<and> plainField (example c)"
    using plain by simp
  have rows: "readRows P f = Inr ?rows"
    using readRows_csv [OF name content] parseCSV_export [OF num plain'] by simp
  have keep: "filter (\<lambda>(j, entry). resolveWord entry \<noteq> []) (enumerate 0 ?rows) = enumerate 0 ?rows"
  proof (rule filter_True, clarify)
    fix j entry assume "(j, entry) \<in> set (enumerate 0 ?rows)" and e: "resolveWord entry = []"
    then have "entry \<in> set ?rows" by (auto simp: in_set_enumerate_eq)
    then obtain c where c: "c \<in> set (cards st)" "entry = ?R c" by auto
    from plain c(1) have p: "plainField (word c)" "plainField (ipa c)" "plainField (audio c)"
        "plainField (meaning c)" "plainField (example c)" and w: "word c \<noteq> []" by simp_all
    from resolveWord_export [OF num p] c(2) e w show False by simp
  qed
  have imp: "handleFileImport P env st' (Some f) = Inr (st'\<lparr>cards := cards st' @ ?new\<rparr>)"
    using handleFileImport_rows [OF rows, of env st'] keep by simp
  have len: "length ?new = length (cards st)" by simp
  have fields: "word (?new ! k) = word (cards st ! k) \<and>
        example (?new ! k) = example (cards st ! k) \<and>
        (ipa (cards st ! k) \<noteq> [] \<or> \<not> autoComplete st' \<longrightarrow> ipa (?new ! k) = ipa (cards st ! k)) \<and>
        (audio (cards st ! k) \<noteq> [] \<or> \<not> autoComplete st' \<longrightarrow> audio (?new ! k) = audio (cards st ! k)) \<and>
        (meaning (cards st ! k) \<noteq> [] \<or> \<not> autoComplete st' \<longrightarrow>
           meaning (?new ! k) = meaning (cards st ! k)) \<and>
        ease (?new ! k) = 2.5 \<and> interval (?new ! k) = 0 \<and>
        due (?new ! k) = Some (now_due (env k))" if k: "k < length (cards st)" for k
  proof -
    let ?c = "cards st ! k"
    from k have mem: "?c \<in> set (cards st)" by simp
    from plain mem have p: "plainField (word ?c)" "plainField (ipa ?c)" "plainField (audio ?c)"
        "plainField (meaning ?c)" "plainField (example ?c)" by simp_all
    let ?n = "newCard P (env k) (?R ?c) (word ?c)"
    have nk: "?new ! k = projr (completeCard (env k) (autoComplete st') ?n)"
      using k by (simp add: nth_enumerate_eq resolveWord_export [OF num p])
    obtain c' where c': "completeCard (env k) (autoComplete st') ?n = Inr c'"
      "word c' = word ?n" "example c' = example ?n" "ease c' = ease ?n"
      "interval c' = interval ?n" "due c' = due ?n"
      "ipa ?n \<noteq> [] \<longrightarrow> ipa c' = ipa ?n" "audio ?n \<noteq> [] \<longrightarrow> audio c' = audio ?n"
      "meaning ?n \<noteq> [] \<longrightarrow> meaning c' = meaning ?n" "\<not> autoComplete st' \<longrightarrow> c' = ?n"
      using completeCard_Inr [of "env k" "autoComplete st'" ?n] by blast
    have n: "word ?n = word ?c" "ipa ?n = ipa ?c" "audio ?n = audio ?c" "meaning ?n = meaning ?c"
      "example ?n = example ?c" "ease ?n = 2.5" "interval ?n = 0" "due ?n = Some (now_due (env k))"
      by (simp_all add: newCard_export [OF num p])
    from c' n show ?thesis unfolding nk by auto
  qed
  from imp len fields show ?thesis by blast
qed

theorem C7_csv_round_trip_witness:
  "\<exists>newCards.
     handleFileImport
       \<lparr>numToString = (\<lambda>x. if x = 3.1 then ''3.1'' else if x = 6 then ''6''
                            else if x = 1000 then ''1000'' else ''0''),
        JSON_parse = (\<lambda>s. Inl SyntaxError)\<rparr>
       (\<lambda>i. \<lparr>now_id = 2000, random = 0, now_due = 2000, fetch = (\<lambda>u. Inl TypeError)\<rparr>)
       \<lparr>cards = [], currentCard = None, showAnswer = False, autoComplete = False\<rparr>
       (Some \<lparr>file_name = ''vocab_cards.csv'',
              file_text = Inr (exportCSV
                \<lparr>numToString = (\<lambda>x. if x = 3.1 then ''3.1'' else if x = 6 then ''6''
                            else if x = 1000 then ''1000'' else ''0''),
                 JSON_parse = (\<lambda>s. Inl SyntaxError)\<rparr>
                \<lparr>cards = [\<lparr>card_id = ''1'', word = ''cat'', ipa = ''/kat/'', audio = [],
                            meaning = ''a pet'', example = ''The cat sat.'', ease = 3.1,
                            interval = 6, due = Some 1000\<rparr>],
                 currentCard = None, showAnswer = False, autoComplete = False\<rparr>)\<rparr>)
       = Inr \<lparr>cards = [] @ newCards, currentCard = None, showAnswer = False,
              autoComplete = False\<rparr> \<and>
     length newCards = 1 \<and>
     word (newCards ! 0) = ''cat'' \<and> ipa (newCards ! 0) = ''/kat/'' \<and> audio (newCards ! 0) = [] \<and>
     meaning (newCards ! 0) = ''a pet'' \<and> example (newCards ! 0) = ''The cat sat.'' \<and>
     ease (newCards ! 0) = 2.5 \<and> interval (newCards ! 0) = 0 \<and> due (newCards ! 0) = Some 2000"
proof -
  let ?P = "\<lparr>numToString = (\<lambda>x. if x = 3.1 then ''3.1'' else if x = 6 then ''6''
                            else if x = 1000 then ''1000'' else ''0''),
        JSON_parse = (\<lambda>s. Inl SyntaxError)\<rparr>"
  let ?env = "\<lambda>i :: nat. \<lparr>now_id = 2000, random = 0, now_due = 2000, fetch = (\<lambda>u. Inl TypeError)\<rparr>"
  let ?c = "\<lparr>card_id = ''1'', word = ''cat'', ipa = ''/kat/'', audio = [],
                            meaning = ''a pet'', example = ''The cat sat.'', ease = 3.1,
                            interval = 6, due = Some 1000\<rparr>"
  let ?st = "\<lparr>cards = [?c], currentCard = None, showAnswer = False, autoComplete = False\<rparr>"
  let ?st' = "\<lparr>cards = [], currentCard = None, showAnswer = False, autoComplete = False\<rparr>"
  let ?f = "\<lparr>file_name = ''vocab_cards.csv'', file_text = Inr (exportCSV ?P ?st)\<rparr>"
  have num: "\<forall>x. numberText (numToString ?P x)"
    by (simp add: numberText_def)
  have tr: "trim ''cat'' = ''cat''" "trim ''/kat/'' = ''/kat/''" "trim [] = []"
    "trim ''a pet'' = ''a pet''" "trim ''The cat sat.'' = ''The cat sat.''"
    by (simp_all add: trim_id trim_Nil whitespace_def)
  have plain: "\<forall>c \<in> set (cards ?st). word c \<noteq> [] \<and> plainField (word c) \<and> plainField (ipa c) \<and>
       plainField (audio c) \<and> plainField (meaning c) \<and> plainField (example c)"
    by (simp add: plainField_def tr)
  have name: "\<not> isJsonName (file_name ?f)"
    by (simp add: isJsonName_def toLowerAscii_def suffix_to_prefix)
  have content: "file_text ?f = Inr (exportCSV ?P ?st)" by simp
  from C7_csv_round_trip [OF num plain name content, of ?env ?st']
  obtain newCards where n:
    "handleFileImport ?P ?env ?st' (Some ?f) = Inr (?st'\<lparr>cards := cards ?st' @ newCards\<rparr>)"
    "length newCards = length (cards ?st)"
    "\<forall>k < length (cards ?st).
        word (newCards ! k) = word (cards ?st ! k) \<and>
        example (newCards ! k) = example (cards ?st ! k) \<and>
        (ipa (cards ?st ! k) \<noteq> [] \<or> \<not> autoComplete ?st' \<longrightarrow> ipa (newCards ! k) = ipa (cards ?st ! k)) \<and>
        (audio (cards ?st ! k) \<noteq> [] \<or> \<not> autoComplete ?st' \<longrightarrow> audio (newCards ! k) = audio (cards ?st ! k)) \<and>
        (meaning (cards ?st ! k) \<noteq> [] \<or> \<not> autoComplete ?st' \<longrightarrow>
           meaning (newCards ! k) = meaning (cards ?st ! k)) \<and>
        ease (newCards ! k) = 2.5 \<and> interval (newCards ! k) = 0 \<and>
        due (newCards ! k) = Some (now_due (?env k))"
    by blast
  from n(3) have "word (newCards ! 0) = ''cat'' \<and> ipa (newCards ! 0) = ''/kat/'' \<and>
     audio (newCards ! 0) = [] \<and> meaning (newCards ! 0) = ''a pet'' \<and>
     example (newCards ! 0) = ''The cat sat.'' \<and> ease (newCards ! 0) = 2.5 \<and>
     interval (newCards ! 0) = 0 \<and> due (newCards ! 0) = Some 2000"
    by simp
  moreover from n(2) have "length newCards = 1" by simp
  moreover from n(1) have "handleFileImport ?P ?env ?st' (Some ?f) =
      Inr \<lparr>cards = [] @ newCards, currentCard = None, showAnswer = False, autoComplete = False\<rparr>"
    by simp
  ultimately show ?thesis by blast
qed

text \<open>
  The claim as the specification states it (for every collection, the cards read back
  have the same content fields) fails as soon as a field holds a comma: neither side
  quotes. The card \<open>cat\<close> with meaning \<open>a, b\<close> and no example is exported as the row
  \<open>cat,,,a, b,,2.5,0,1000\<close> and comes back with meaning \<open>a\<close> and example \<open>b\<close>.
\<close>

theorem C7_counterexample:
  "(case handleFileImport
      \<lparr>numToString = (\<lambda>x. if x = 5 / 2 then ''2.5'' else if x = 1000 then ''1000'' else ''0''),
       JSON_parse = (\<lambda>s. Inl SyntaxError)\<rparr>
      (\<lambda>i. \<lparr>now_id = 2000, random = 0, now_due = 2000, fetch = (\<lambda>u. Inl TypeError)\<rparr>)
      \<lparr>cards = [], currentCard = None, showAnswer = False, autoComplete = False\<rparr>
      (Some \<lparr>file_name = ''vocab_cards.csv'',
             file_text = Inr (exportCSV
               \<lparr>numToString = (\<lambda>x. if x = 5 / 2 then ''2.5'' else if x = 1000 then ''1000'' else ''0''),
                JSON_parse = (\<lambda>s. Inl SyntaxError)\<rparr>
               \<lparr>cards = [\<lparr>card_id = ''1'', word = ''cat'', ipa = [], audio = [],
                           meaning = ''a, b'', example = [], ease = 2.5, interval = 0,
                           due = Some 1000\<rparr>],
                currentCard = None, showAnswer = False, autoComplete = False\<rparr>)\<rparr>) of
      Inl e \<Rightarrow> []
    | Inr s \<Rightarrow> map (\<lambda>c. (word c, meaning c, example c)) (cards s))
   = [(''cat'', ''a'', ''b'')]"
  by (simp add: eval_defs)

text \<open>
  The other conditions of the amended statement are needed as well. White space at the
  end of a field is trimmed away; a line feed inside a field starts a new row, whose
  first piece becomes the word of a further card; and with auto-complete on, an empty
  \<open>ipa\<close> comes back filled from the lookup.
\<close>

lemma round_trip_trims_fields:
  "(case handleFileImport
      \<lparr>numToString = (\<lambda>x. if x = 5 / 2 then ''2.5'' else if x = 1000 then ''1000'' else ''0''),
       JSON_parse = (\<lambda>s. Inl SyntaxError)\<rparr>
      (\<lambda>i. \<lparr>now_id = 2000, random = 0, now_due = 2000, fetch = (\<lambda>u. Inl TypeError)\<rparr>)
      \<lparr>cards = [], currentCard = None, showAnswer = False, autoComplete = False\<rparr>
      (Some \<lparr>file_name = ''vocab_cards.csv'',
             file_text = Inr (exportCSV
               \<lparr>numToString = (\<lambda>x. if x = 5 / 2 then ''2.5'' else if x = 1000 then ''1000'' else ''0''),
                JSON_parse = (\<lambda>s. Inl SyntaxError)\<rparr>
               \<lparr>cards = [\<lparr>card_id = ''1'', word = ''cat'', ipa = [], audio = [],
                           meaning = ''a pet '', example = [], ease = 2.5, interval = 0,
                           due = Some 1000\<rparr>],
                currentCard = None, showAnswer = False, autoComplete = False\<rparr>)\<rparr>) of
      Inl e \<Rightarrow> []
    | Inr s \<Rightarrow> map (\<lambda>c. (word c, meaning c, example c)) (cards s))
   = [(''cat'', ''a pet'', [])]"
  by (simp add: eval_defs)

lemma round_trip_splits_at_line_feed:
  "(case handleFileImport
      \<lparr>numToString = (\<lambda>x. if x = 5 / 2 then ''2.5'' else if x = 1000 then ''1000'' else ''0''),
       JSON_parse = (\<lambda>s. Inl SyntaxError)\<rparr>
      (\<lambda>i. \<lparr>now_id = 2000, random = 0, now_due = 2000, fetch = (\<lambda>u. Inl TypeError)\<rparr>)
      \<lparr>cards = [], currentCard = None, showAnswer = False, autoComplete = False\<rparr>
      (Some \<lparr>file_name = ''vocab_cards.csv'',
             file_text = Inr (exportCSV
               \<lparr>numToString = (\<lambda>x. if x = 5 / 2 then ''2.5'' else if x = 1000 then ''1000'' else ''0''),
                JSON_parse = (\<lambda>s. Inl SyntaxError)\<rparr>
               \<lparr>cards = [\<lparr>card_id = ''1'', word = ''cat'', ipa = [], audio = [],
                           meaning = ''a'' @ [CHR 0x0A] @ ''b'', example = [], ease = 2.5,
                           interval = 0, due = Some 1000\<rparr>],
                currentCard = None, showAnswer = False, autoComplete = False\<rparr>)\<rparr>) of
      Inl e \<Rightarrow> []
    | Inr s \<Rightarrow> map (\<lambda>c. (word c, meaning c, example c)) (cards s))
   = [(''cat'', ''a'', []), (''b'', ''0'', ''1000'')]"
  by (simp add: eval_defs)

lemma round_trip_fills_empty_fields:
  "(case handleFileImport
      \<lparr>numToString = (\<lambda>x. if x = 5 / 2 then ''2.5'' else if x = 1000 then ''1000'' else ''0''),
       JSON_parse = (\<lambda>s. Inl SyntaxError)\<rparr>
      (\<lambda>i. \<lparr>now_id = 2000, random = 0, now_due = 2000,
             fetch = (\<lambda>u. Inr \<lparr>res_ok = True, res_json = Inr
               [\<lparr>phonetics = Some [\<lparr>phon_text = Some ''/kat/'', phon_audio = None\<rparr>],
                 meanings = None\<rparr>]\<rparr>)\<rparr>)
      \<lparr>cards = [], currentCard = None, showAnswer = False, autoComplete = True\<rparr>
      (Some \<lparr>file_name = ''vocab_cards.csv'',
             file_text = Inr (exportCSV
               \<lparr>numToString = (\<lambda>x. if x = 5 / 2 then ''2.5'' else if x = 1000 then ''1000'' else ''0''),
                JSON_parse = (\<lambda>s. Inl SyntaxError)\<rparr>
               \<lparr>cards = [\<lparr>card_id = ''1'', word = ''cat'', ipa = [], audio = [],
                           meaning = ''a pet'', example = [], ease = 2.5, interval = 0,
                           due = Some 1000\<rparr>],
                currentCard = None, showAnswer = False, autoComplete = False\<rparr>)\<rparr>) of
      Inl e \<Rightarrow> []
    | Inr s \<Rightarrow> map (\<lambda>c. (word c, ipa c, meaning c)) (cards s))
   = [(''cat'', ''/kat/'', ''a pet'')]"
  by (simp add: eval_defs fetchDictionary_def fetchDictionary_try_def entryPhonetics_def
      entryMeaning_def)

text \<open>
  C8. The lookup never raises: \<open>fetchDictionary\<close> always resolves to a result. When the
  request fails, the response is not 2xx, the body does not parse, or the body has no
  entry, the result is the all-empty one. During an import the looked-up values go only
  into fields that the imported card has empty: a non-empty \<open>ipa\<close>, \<open>audio\<close> or \<open>meaning\<close>
  of the row is kept, whatever the lookup returns, and \<open>word\<close> and \<open>example\<close> are never
  touched; an empty one of the three takes the looked-up value when auto-complete is on.
\<close>

theorem C8_lookup_never_raises:
  "(\<exists>v. fetchDictionary net w = Inr v) \<and>
   ((\<exists>e. net (dictionaryUrl w) = Inl e) \<or>
    (\<exists>res. net (dictionaryUrl w) = Inr res \<and>
        (\<not> res_ok res \<or> (\<exists>e. res_json res = Inl e) \<or> res_json res = Inr [])) \<longrightarrow>
      fetchDictionary net w = Inr \<lparr>fetched_ipa = [], fetched_audio = [], fetched_meaning = []\<rparr>) \<and>
   (\<exists>c'. completeCard d ac c = Inr c' \<and>
      word c' = word c \<and> example c' = example c \<and>
      (ipa c \<noteq> [] \<longrightarrow> ipa c' = ipa c) \<and>
      (audio c \<noteq> [] \<longrightarrow> audio c' = audio c) \<and>
      (meaning c \<noteq> [] \<longrightarrow> meaning c' = meaning c) \<and>
      (ac \<longrightarrow> (\<exists>v. fetchDictionary (fetch d) (word c) = Inr v \<and>
           (ipa c = [] \<longrightarrow> ipa c' = fetched_ipa v) \<and>
           (audio c = [] \<longrightarrow> audio c' = fetched_audio v) \<and>
           (meaning c = [] \<longrightarrow> meaning c' = fetched_meaning v))))"
proof (intro conjI)
  show "\<exists>v. fetchDictionary net w = Inr v" by (rule fetchDictionary_Inr)
next
  show "(\<exists>e. net (dictionaryUrl w) = Inl e) \<or>
    (\<exists>res. net (dictionaryUrl w) = Inr res \<and>
        (\<not> res_ok res \<or> (\<exists>e. res_json res = Inl e) \<or> res_json res = Inr [])) \<longrightarrow>
      fetchDictionary net w = Inr \<lparr>fetched_ipa = [], fetched_audio = [], fetched_meaning = []\<rparr>"
    by (auto simp: fetchDictionary_def fetchDictionary_try_def entryPhonetics_def
        entryMeaning_def)
next
  obtain v where v: "fetchDictionary (fetch d) (word c) = Inr v"
    using fetchDictionary_Inr by blast
  then show "\<exists>c'. completeCard d ac c = Inr c' \<and>
      word c' = word c \<and> example c' = example c \<and>
      (ipa c \<noteq> [] \<longrightarrow> ipa c' = ipa c) \<and>
      (audio c \<noteq> [] \<longrightarrow> audio c' = audio c) \<and>
      (meaning c \<noteq> [] \<longrightarrow> meaning c' = meaning c) \<and>
      (ac \<longrightarrow> (\<exists>v. fetchDictionary (fetch d) (word c) = Inr v \<and>
           (ipa c = [] \<longrightarrow> ipa c' = fetched_ipa v) \<and>
           (audio c = [] \<longrightarrow> audio c' = fetched_audio v) \<and>
           (meaning c = [] \<longrightarrow> meaning c' = fetched_meaning v)))"
    by (simp add: completeCard_def strOr_def)
qed

theorem C8_lookup_never_raises_witness:
  "fetchDictionary (\<lambda>url. Inr \<lparr>res_ok = False, res_json = Inr []\<rparr>) ''zzzz'' =
     Inr \<lparr>fetched_ipa = [], fetched_audio = [], fetched_meaning = []\<rparr> \<and>
   (\<exists>c'. completeCard
       \<lparr>now_id = 1000, random = 1 / 2, now_due = 1000,
        fetch = (\<lambda>url. Inr \<lparr>res_ok = True, res_json = Inr
          [\<lparr>phonetics = Some [\<lparr>phon_text = Some ''/kat/'', phon_audio = None\<rparr>],
            meanings = Some [\<lparr>mean_definitions = Some [\<lparr>def_definition = Some ''a feline''\<rparr>]\<rparr>]\<rparr>]\<rparr>)\<rparr>
       True
       \<lparr>card_id = ''1000-0.5'', word = ''cat'', ipa = [], audio = [], meaning = ''a pet'',
        example = [], ease = 2.5, interval = 0, due = Some 1000\<rparr> = Inr c' \<and>
      meaning c' = ''a pet'' \<and> ipa c' = ''/kat/'' \<and> audio c' = [])"
proof -
  let ?net404 = "\<lambda>url :: string. Inr \<lparr>res_ok = False, res_json = Inr []\<rparr> :: js_error + response"
  let ?net = "\<lambda>url :: string. Inr \<lparr>res_ok = True, res_json = Inr
          [\<lparr>phonetics = Some [\<lparr>phon_text = Some ''/kat/'', phon_audio = None\<rparr>],
            meanings = Some [\<lparr>mean_definitions = Some [\<lparr>def_definition = Some ''a feline''\<rparr>]\<rparr>]\<rparr>]\<rparr>
          :: js_error + response"
  let ?d = "\<lparr>now_id = 1000, random = 1 / 2, now_due = 1000, fetch = ?net\<rparr>"
  let ?c = "\<lparr>card_id = ''1000-0.5'', word = ''cat'', ipa = [], audio = [], meaning = ''a pet'',
        example = [], ease = 2.5, interval = 0, due = Some 1000\<rparr>"
  have a: "fetchDictionary ?net404 ''zzzz'' =
     Inr \<lparr>fetched_ipa = [], fetched_audio = [], fetched_meaning = []\<rparr>"
    using C8_lookup_never_raises [where net = ?net404 and w = "''zzzz''" and d = ?d and ac = True
        and c = ?c]
    by simp
  have v: "fetchDictionary ?net ''cat'' =
     Inr \<lparr>fetched_ipa = ''/kat/'', fetched_audio = [], fetched_meaning = ''a feline''\<rparr>"
    by (simp add: fetchDictionary_def fetchDictionary_try_def entryPhonetics_def
        entryMeaning_def truthy_def)
  obtain c' where c': "completeCard ?d True ?c = Inr c'"
    "meaning ?c \<noteq> [] \<longrightarrow> meaning c' = meaning ?c"
    "True \<longrightarrow> (\<exists>v. fetchDictionary (fetch ?d) (word ?c) = Inr v \<and>
           (ipa ?c = [] \<longrightarrow> ipa c' = fetched_ipa v) \<and>
           (audio ?c = [] \<longrightarrow> audio c' = fetched_audio v) \<and>
           (meaning ?c = [] \<longrightarrow> meaning c' = fetched_meaning v))"
    using C8_lookup_never_raises [where net = ?net and w = "''cat''" and d = ?d and ac = True
        and c = ?c]
    by blast
  from c'(2) have m: "meaning c' = ''a pet''" by simp
  from c'(3) v have "ipa c' = ''/kat/''" "audio c' = []" by simp_all
  with a c'(1) m show ?thesis by blast
qed

text \<open>
  C9. When the text of the chosen file cannot be read, or the file is a \<open>.json\<close> file whose
  text \<open>JSON.parse\<close> rejects, the handler returns normally and the state, the list of
  cards included, is exactly what it was.
\<close>

theorem C9_malformed_import:
  assumes "(\<exists>e. file_text f = Inl e) \<or>
           (\<exists>content e. file_text f = Inr content \<and> isJsonName (file_name f) \<and>
                          JSON_parse P content = Inl e)"
  shows "handleFileImport P env st (Some f) = Inr st \<and>
         (\<forall>st'. handleFileImport P env st (Some f) = Inr st' \<longrightarrow> cards st' = cards st)"
proof -
  from assms have "\<exists>e. readRows P f = Inl e"
    by (auto simp: readRows_def)
  then show ?thesis
    by (auto simp: handleFileImport_def)
qed

theorem C9_malformed_import_witness:
  "handleFileImport
     \<lparr>numToString = (\<lambda>x. ''0''),
      JSON_parse = (\<lambda>s. if s = ''[]'' then Inr (JArray []) else Inl SyntaxError)\<rparr>
     (\<lambda>i. \<lparr>now_id = 2000, random = 0, now_due = 2000, fetch = (\<lambda>u. Inl TypeError)\<rparr>)
     \<lparr>cards = [\<lparr>card_id = ''1'', word = ''cat'', ipa = [], audio = [], meaning = [],
                example = [], ease = 2.5, interval = 0, due = Some 1000\<rparr>],
      currentCard = None, showAnswer = False, autoComplete = True\<rparr>
     (Some \<lparr>file_name = ''words.JSON'', file_text = Inr ''[{''\<rparr>)
   = Inr \<lparr>cards = [\<lparr>card_id = ''1'', word = ''cat'', ipa = [], audio = [], meaning = [],
                example = [], ease = 2.5, interval = 0, due = Some 1000\<rparr>],
      currentCard = None, showAnswer = False, autoComplete = True\<rparr> \<and>
   handleFileImport
     \<lparr>numToString = (\<lambda>x. ''0''),
      JSON_parse = (\<lambda>s. if s = ''[]'' then Inr (JArray []) else Inl SyntaxError)\<rparr>
     (\<lambda>i. \<lparr>now_id = 2000, random = 0, now_due = 2000, fetch = (\<lambda>u. Inl TypeError)\<rparr>)
     \<lparr>cards = [\<lparr>card_id = ''1'', word = ''cat'', ipa = [], audio = [], meaning = [],
                example = [], ease = 2.5, interval = 0, due = Some 1000\<rparr>],
      currentCard = None, showAnswer = False, autoComplete = True\<rparr>
     (Some \<lparr>file_name = ''words.csv'', file_text = Inl NotReadableError\<rparr>)
   = Inr \<lparr>cards = [\<lparr>card_id = ''1'', word = ''cat'', ipa = [], audio = [], meaning = [],
                example = [], ease = 2.5, interval = 0, due = Some 1000\<rparr>],
      currentCard = None, showAnswer = False, autoComplete = True\<rparr>"
proof -
  let ?P = "\<lparr>numToString = (\<lambda>x. ''0''),
      JSON_parse = (\<lambda>s. if s = ''[]'' then Inr (JArray []) else Inl SyntaxError)\<rparr>"
  let ?f1 = "\<lparr>file_name = ''words.JSON'', file_text = Inr ''[{''\<rparr>"
  let ?f2 = "\<lparr>file_name = ''words.csv'', file_text = Inl NotReadableError\<rparr>"
  have json: "isJsonName (file_name ?f1)"
    by (simp add: isJsonName_def toLowerAscii_def suffix_to_prefix)
  have h1: "(\<exists>e. file_text ?f1 = Inl e) \<or>
           (\<exists>content e. file_text ?f1 = Inr content \<and> isJsonName (file_name ?f1) \<and>
                          JSON_parse ?P content = Inl e)"
    using json by simp
  have h2: "(\<exists>e. file_text ?f2 = Inl e) \<or>
           (\<exists>content e. file_text ?f2 = Inr content \<and> isJsonName (file_name ?f2) \<and>
                          JSON_parse ?P content = Inl e)"
    by simp
  from C9_malformed_import [OF h1] C9_malformed_import [OF h2] show ?thesis by blast
qed

end
